theory Spec2Isabelle
  imports Main "HOL-Library.AList"
begin

section \<open>The dynamic\_imdb input plugin (flexget/plugins/input/dynamic\_imdb.py)\<close>

text \<open>
  The plugin resolves an IMDB identifier to a person, company or character, lists the
  works of that entity and turns them into entries, refusing to return more than
  \<open>max_entries\<close> of them.  The metadata backend (IMDbPY) and the entry class of the host
  are not part of the plugin; the backend is a parameter of the model, a record of the
  five calls the plugin makes, each of which may raise.
\<close>

subsection \<open>Values, exceptions, reports\<close>

text \<open>
  Values found in a configuration or in the data of a work: strings, numbers, booleans
  and lists of strings.  A Python dict is an association list with a lookup by
  \<^const>\<open>map_of\<close>; \<open>d[k] = v\<close> is \<open>AList.update k v d\<close>.
\<close>

datatype pyval = Str string | Num int | Bool bool | Lst "string list"

type_synonym dict = "(string \<times> pyval) list"

text \<open>
  Exceptions are values.  \<open>KeyError k\<close> is a failed subscript \<open>x[k]\<close>, \<open>TypeError\<close> an
  operation on a value of the wrong type (\<open>'a' + None\<close>, unpacking \<open>None\<close>),
  \<open>BackendError\<close> anything the backend raises.
\<close>

datatype exn = KeyError string | TypeError | BackendError string

text \<open>
  The calls of \<open>log.error\<close> and \<open>log.warning\<close>, in the order they are made.  The
  \<open>info\<close> and \<open>debug\<close> messages are not recorded; what evaluating their arguments can
  raise is part of the model.
\<close>

datatype report =
    ImdbpyRequired
  | CouldNotResolve
  | CouldNotGetItemList
  | InvalidEntryCreated
  | ExceedsMaximum nat

subsection \<open>Works, entities, the backend\<close>

record movie =
  movieID :: string
  data :: dict

type_synonym entity = "(string \<times> movie list) list"

datatype entity_type = Person | Company | Character

record backend =
  get_person :: "string \<Rightarrow> exn + entity"
  get_company :: "string \<Rightarrow> exn + entity"
  get_character :: "string \<Rightarrow> exn + entity"
  update :: "movie \<Rightarrow> exn + movie"
  get_imdbID :: "movie \<Rightarrow> exn + string"

text \<open>
  \<open>ia.update(movie)\<close> fills the work in place; the model returns the filled work.
\<close>

text \<open>
  Modelled from the spec: equality of two works of the backend, which \<open>movie not in movies\<close>
  uses and which the backend library defines, is equality of the backend's work
  identifier ("Identity for dedup purposes is the backend's opaque work identifier,
  not title string equality").
\<close>

definition movie_in :: "movie \<Rightarrow> movie list \<Rightarrow> bool" where
  "movie_in m ms = (movieID m \<in> set (map movieID ms))"

subsection \<open>Entries\<close>

record entry =
  title :: pyval
  imdb_id :: string
  url :: string

text \<open>
  Modelled from the spec: equality of two entries, which \<open>entry not in entries\<close> uses and
  which the host's entry class defines, is equality of their canonical ids
  ("Deduplicates by canonical_id, preserving first-seen order").
\<close>

definition entry_in :: "entry \<Rightarrow> entry list \<Rightarrow> bool" where
  "entry_in e es = (imdb_id e \<in> set (map imdb_id es))"

subsection \<open>Constants and the configuration schema\<close>

definition JOB_TYPES :: "string list" where
  "JOB_TYPES = [''actor'', ''director'', ''producer'', ''writer'', ''self'',
     ''editor'', ''miscellaneous'', ''editorial department'', ''cinematographer'',
     ''visual effects'', ''thanks'', ''music department'']"

definition CONTENT_TYPES :: "string list" where
  "CONTENT_TYPES = [''movie'', ''tv series'', ''tv mini series'', ''video game'',
     ''video movie'', ''tv movie'', ''episode'']"

text \<open>
  \<open>ENTITIES_FORMATS\<close>: each kind has the pattern of a two-letter code followed by a group
  of seven digits.
\<close>

fun ENTITIES_FORMATS :: "entity_type \<Rightarrow> string" where
  "ENTITIES_FORMATS Person = ''nm''"
| "ENTITIES_FORMATS Company = ''co''"
| "ENTITIES_FORMATS Character = ''ch''"

text \<open>The configuration the host passes: a bare string or a dict.\<close>

datatype config = Bare string | Dict dict

text \<open>
  The \<open>schema\<close> attribute: a string, or an object with the four properties, of which
  \<open>id\<close> is required, and no other property.
\<close>

definition enum_or_array :: "string list \<Rightarrow> pyval \<Rightarrow> bool" where
  "enum_or_array enum v =
     (case v of Str s \<Rightarrow> s \<in> set enum | Lst l \<Rightarrow> set l \<subseteq> set enum | _ \<Rightarrow> False)"

definition property_ok :: "string \<times> pyval \<Rightarrow> bool" where
  "property_ok kv =
     (let (k, v) = kv in
      if k = ''id'' then (case v of Str _ \<Rightarrow> True | _ \<Rightarrow> False)
      else if k = ''job_types'' then enum_or_array JOB_TYPES v
      else if k = ''content_types'' then enum_or_array CONTENT_TYPES v
      else if k = ''max_entries'' then (case v of Num _ \<Rightarrow> True | _ \<Rightarrow> False)
      else False)"

definition schema :: "config \<Rightarrow> bool" where
  "schema c =
     (case c of Bare _ \<Rightarrow> True
      | Dict d \<Rightarrow> ''id'' \<in> set (map fst d) \<and> list_all property_ok d)"

subsection \<open>entity\_type\_and\_object\<close>

definition is_digit :: "char \<Rightarrow> bool" where
  "is_digit c = (c \<in> set ''0123456789'')"

text \<open>
  \<open>re.search\<close> with a pattern \<open>xx(\d{7})\<close>: the group of the leftmost place where
  the two letters are followed by seven digits.
\<close>

definition match_here :: "string \<Rightarrow> string \<Rightarrow> string option" where
  "match_here code s =
     (let g = take 7 (drop (length code) s) in
      if take (length code) s = code \<and> length g = 7 \<and> list_all is_digit g
      then Some g else None)"

fun re_search :: "string \<Rightarrow> string \<Rightarrow> string option" where
  "re_search code [] = match_here code []"
| "re_search code (c # s) =
     (case match_here code (c # s) of Some g \<Rightarrow> Some g | None \<Rightarrow> re_search code s)"

fun backend_get :: "backend \<Rightarrow> entity_type \<Rightarrow> string \<Rightarrow> exn + entity" where
  "backend_get ia Person g = get_person ia g"
| "backend_get ia Company g = get_company ia g"
| "backend_get ia Character g = get_character ia g"

text \<open>
  The loop over \<open>ENTITIES_FORMATS.items()\<close>.  The order in which a dict yields its items
  is not fixed by the source, so it is the parameter \<open>order\<close>.  At the first kind whose
  pattern is found the backend is called twice with the group, once for the log
  message and once for the result.  Falling off the loop returns \<open>None\<close>.
\<close>

fun entity_type_and_object ::
  "backend \<Rightarrow> entity_type list \<Rightarrow> string \<Rightarrow> exn + (entity_type \<times> entity) option" where
  "entity_type_and_object ia [] ident = Inr None"
| "entity_type_and_object ia (t # order) ident =
     (case re_search (ENTITIES_FORMATS t) ident of
        Some g \<Rightarrow>
          (case backend_get ia t g of
             Inl e \<Rightarrow> Inl e
           | Inr _ \<Rightarrow>
               (case backend_get ia t g of
                  Inl e \<Rightarrow> Inl e
                | Inr obj \<Rightarrow> Inr (Some (t, obj))))
      | None \<Rightarrow> entity_type_and_object ia order ident)"

subsection \<open>items\_by\_entity\<close>

text \<open>\<open>entity_object.get(key, [])\<close>\<close>

definition get_or_empty :: "entity \<Rightarrow> string \<Rightarrow> movie list" where
  "get_or_empty obj k = (case map_of obj k of Some l \<Rightarrow> l | None \<Rightarrow> [])"

text \<open>\<open>entity_object.get(job_and_content, entity_object.get(job_type))\<close>\<close>

definition person_lookup :: "entity \<Rightarrow> string \<Rightarrow> string \<Rightarrow> movie list option" where
  "person_lookup obj job_type content_type =
     (case map_of obj (job_type @ '' '' @ content_type) of
        Some l \<Rightarrow> Some l
      | None \<Rightarrow> map_of obj job_type)"

text \<open>\<open>movie['kind'] in content_types\<close>, once the subscript has succeeded.\<close>

definition kind_in :: "pyval \<Rightarrow> string list \<Rightarrow> bool" where
  "kind_in k content_types = (case k of Str s \<Rightarrow> s \<in> set content_types | _ \<Rightarrow> False)"

text \<open>
  The loop \<open>for movie in movies_by_job_type\<close>.  The subscript \<open>movie['kind']\<close> is only
  evaluated when the work is not in the list yet; the message of the retained work
  concatenates \<open>movie.get('title')\<close> to a string, which raises unless it is one.
\<close>

fun movie_loop ::
  "backend \<Rightarrow> string list \<Rightarrow> movie list \<Rightarrow> movie list \<Rightarrow> exn + movie list" where
  "movie_loop ia content_types movies [] = Inr movies"
| "movie_loop ia content_types movies (c # rest) =
     (case update ia c of
        Inl e \<Rightarrow> Inl e
      | Inr m \<Rightarrow>
          if \<not> movie_in m movies then
            (case map_of (data m) ''kind'' of
               None \<Rightarrow> Inl (KeyError ''kind'')
             | Some k \<Rightarrow>
                 if kind_in k content_types then
                   (case map_of (data m) ''title'' of
                      Some (Str _) \<Rightarrow> movie_loop ia content_types (movies @ [m]) rest
                    | _ \<Rightarrow> Inl TypeError)
                 else movie_loop ia content_types movies rest)
          else movie_loop ia content_types movies rest)"

text \<open>The loop \<open>for content_type in content_types\<close> of one job type.\<close>

fun content_loop ::
  "backend \<Rightarrow> entity \<Rightarrow> string \<Rightarrow> string list \<Rightarrow> movie list \<Rightarrow> string list
     \<Rightarrow> exn + movie list" where
  "content_loop ia obj job_type content_types movies [] = Inr movies"
| "content_loop ia obj job_type content_types movies (ct # rest) =
     (case person_lookup obj job_type ct of
        None \<Rightarrow> content_loop ia obj job_type content_types movies rest
      | Some l \<Rightarrow>
          (case movie_loop ia content_types movies l of
             Inl e \<Rightarrow> Inl e
           | Inr movies' \<Rightarrow> content_loop ia obj job_type content_types movies' rest))"

text \<open>
  The loop \<open>for job_type in job_types\<close>.  \<open>content_types\<close> is what the configuration
  holds; iterating over anything but a list raises.
\<close>

fun job_loop ::
  "backend \<Rightarrow> entity \<Rightarrow> pyval option \<Rightarrow> movie list \<Rightarrow> string list \<Rightarrow> exn + movie list" where
  "job_loop ia obj content_types movies [] = Inr movies"
| "job_loop ia obj content_types movies (jt # rest) =
     (case content_types of
        Some (Lst cts) \<Rightarrow>
          (case content_loop ia obj jt cts movies cts of
             Inl e \<Rightarrow> Inl e
           | Inr movies' \<Rightarrow> job_loop ia obj content_types movies' rest)
      | _ \<Rightarrow> Inl TypeError)"

text \<open>
  \<open>items_by_entity\<close> returns the list object \<open>job_types\<close> as the call leaves it, and the
  result: an exception, \<open>None\<close> or a list of works.  \<open>job_types.append('actress')\<close>
  changes the list it was passed.  \<open>job_types\<close> is a list whenever the call comes from
  \<open>on_task_input\<close>, where \<open>prepare_config\<close> has wrapped a string; any other value is
  answered with \<open>TypeError\<close>.
\<close>

fun items_by_entity ::
  "backend \<Rightarrow> entity_type \<Rightarrow> entity \<Rightarrow> pyval option \<Rightarrow> pyval option
     \<Rightarrow> pyval option \<times> (exn + movie list option)" where
  "items_by_entity ia Company obj content_types job_types =
     (job_types, Inr (map_of obj ''production companies''))"
| "items_by_entity ia Character obj content_types job_types =
     (job_types,
      Inr (Some (get_or_empty obj ''feature'' @ get_or_empty obj ''tv''
                 @ get_or_empty obj ''video-game'' @ get_or_empty obj ''video'')))"
| "items_by_entity ia Person obj content_types job_types =
     (case job_types of
        Some (Lst jts) \<Rightarrow>
          (let jts' = (if ''actor'' \<in> set jts then jts @ [''actress''] else jts) in
           (Some (Lst jts'), map_sum id Some (job_loop ia obj content_types [] jts')))
      | _ \<Rightarrow> (job_types, Inl TypeError))"

subsection \<open>prepare\_config\<close>

definition setdefault :: "string \<Rightarrow> pyval \<Rightarrow> dict \<Rightarrow> dict" where
  "setdefault k v d = (case map_of d k of None \<Rightarrow> d @ [(k, v)] | Some _ \<Rightarrow> d)"

definition wrap_string :: "string \<Rightarrow> dict \<Rightarrow> dict" where
  "wrap_string k d =
     (case map_of d k of Some (Str s) \<Rightarrow> AList.update k (Lst [s]) d | _ \<Rightarrow> d)"

definition prepare_config :: "config \<Rightarrow> dict" where
  "prepare_config config =
     (let c0 = (case config of Dict d \<Rightarrow> d | Bare s \<Rightarrow> [(''id'', Str s)]);
          c1 = setdefault ''content_types'' (Lst [CONTENT_TYPES ! 0]) c0;
          c2 = setdefault ''job_types'' (Lst [JOB_TYPES ! 0]) c1;
          c3 = setdefault ''max_entries'' (Num 200) c2;
          c4 = wrap_string ''content_types'' c3
      in wrap_string ''job_types'' c4)"

subsection \<open>on\_task\_input\<close>

text \<open>
  \<open>Entry(title=item['title'], imdb_id='tt' + self.ia.get_imdbID(item), url='')\<close>: the
  subscript first, then the id of the backend behind the two letters \<open>tt\<close>.
\<close>

definition make_entry :: "backend \<Rightarrow> movie \<Rightarrow> exn + entry" where
  "make_entry ia item =
     (case map_of (data item) ''title'' of
        None \<Rightarrow> Inl (KeyError ''title'')
      | Some t \<Rightarrow>
          (case get_imdbID ia item of
             Inl e \<Rightarrow> Inl e
           | Inr i \<Rightarrow> Inr \<lparr>title = t, imdb_id = ''tt'' @ i, url = ''''\<rparr>))"

text \<open>
  The loop \<open>for item in items\<close>.  Whether an entry is valid is decided by the host's
  entry class, the parameter \<open>isvalid\<close>.
\<close>

fun entry_loop ::
  "backend \<Rightarrow> (entry \<Rightarrow> bool) \<Rightarrow> entry list \<Rightarrow> report list \<Rightarrow> movie list
     \<Rightarrow> report list \<times> (exn + entry list)" where
  "entry_loop ia isvalid entries reports [] = (reports, Inr entries)"
| "entry_loop ia isvalid entries reports (item # rest) =
     (case make_entry ia item of
        Inl e \<Rightarrow> (reports, Inl e)
      | Inr entry \<Rightarrow>
          if isvalid entry then
            (if \<not> entry_in entry entries
             then entry_loop ia isvalid (entries @ [entry]) reports rest
             else entry_loop ia isvalid entries reports rest)
          else entry_loop ia isvalid entries (reports @ [InvalidEntryCreated]) rest)"

text \<open>
  \<open>len(entries) <= config.get('max_entries')\<close>.  After \<open>prepare_config\<close> the key is
  present.  The source is Python 2, where an integer compares with a boolean as with 0
  or 1 and is smaller than any string or list.
\<close>

definition len_le :: "nat \<Rightarrow> pyval option \<Rightarrow> bool" where
  "len_le n v =
     (case v of
        Some (Num m) \<Rightarrow> int n \<le> m
      | Some (Bool b) \<Rightarrow> int n \<le> (if b then 1 else 0)
      | Some _ \<Rightarrow> True
      | None \<Rightarrow> False)"

text \<open>
  The object the host passed, as a run leaves it: a dict is changed in place, a bare
  string is replaced by a dict of the run's own.
\<close>

definition config_object :: "config \<Rightarrow> dict \<Rightarrow> config" where
  "config_object config d = (case config of Bare s \<Rightarrow> Bare s | Dict _ \<Rightarrow> Dict d)"

text \<open>
  A run returns the configuration object as it leaves it, the reports and the outcome:
  an exception that leaves the plugin, \<open>None\<close> or the entries.  \<open>imdb\<close> is \<open>None\<close> when
  the backend cannot be imported.
\<close>

definition on_task_input ::
  "backend option \<Rightarrow> (entry \<Rightarrow> bool) \<Rightarrow> entity_type list \<Rightarrow> config
     \<Rightarrow> config \<times> report list \<times> (exn + entry list option)" where
  "on_task_input imdb isvalid order config =
     (case imdb of
        None \<Rightarrow> (config, [ImdbpyRequired], Inr None)
      | Some ia \<Rightarrow>
          (let cfg = prepare_config config;
               resolved =
                 (case map_of cfg ''id'' of
                    Some (Str s) \<Rightarrow> entity_type_and_object ia order s
                  | _ \<Rightarrow> Inl TypeError)
           in case resolved of
                Inl e \<Rightarrow> (config_object config cfg, [CouldNotResolve], Inr None)
              | Inr None \<Rightarrow> (config_object config cfg, [CouldNotResolve], Inr None)
              | Inr (Some (entity_type, entity_object)) \<Rightarrow>
                  (let (job_types', items) =
                         items_by_entity ia entity_type entity_object
                           (map_of cfg ''content_types'') (map_of cfg ''job_types'');
                       cfg' = (case job_types' of
                                 Some v \<Rightarrow> AList.update ''job_types'' v cfg
                               | None \<Rightarrow> cfg)
                   in case items of
                        Inl e \<Rightarrow> (config_object config cfg', [], Inl e)
                      | Inr None \<Rightarrow> (config_object config cfg', [CouldNotGetItemList], Inr None)
                      | Inr (Some []) \<Rightarrow>
                          (config_object config cfg', [CouldNotGetItemList], Inr None)
                      | Inr (Some its) \<Rightarrow>
                          (case entry_loop ia isvalid [] [] its of
                             (reports, Inl e) \<Rightarrow> (config_object config cfg', reports, Inl e)
                           | (reports, Inr entries) \<Rightarrow>
                               if len_le (length entries) (map_of cfg' ''max_entries'')
                               then (config_object config cfg', reports, Inr (Some entries))
                               else (config_object config cfg',
                                     reports @ [ExceedsMaximum (length entries)],
                                     Inr None)))))"


subsection \<open>Notions used to state the properties\<close>

text \<open>The kind of a filled work is one of the requested content types.\<close>

definition kind_requested :: "string list \<Rightarrow> movie \<Rightarrow> bool" where
  "kind_requested cts m =
     (case map_of (data m) ''kind'' of Some k \<Rightarrow> kind_in k cts | None \<Rightarrow> False)"

definition has_title :: "movie \<Rightarrow> bool" where
  "has_title m = (case map_of (data m) ''title'' of Some (Str _) \<Rightarrow> True | _ \<Rightarrow> False)"

text \<open>
  The pattern of a kind as the specification words it: the two letters \<open>code\<close> followed
  by seven digits, somewhere in the identifier; and the seven digits of its leftmost
  occurrence.
\<close>

definition pattern_in :: "string \<Rightarrow> string \<Rightarrow> bool" where
  "pattern_in code s =
     (\<exists>pre g suf. s = pre @ code @ g @ suf \<and> length g = 7 \<and> list_all is_digit g)"

definition first_group :: "string \<Rightarrow> string \<Rightarrow> string \<Rightarrow> bool" where
  "first_group code s g =
     (\<exists>pre suf. s = pre @ code @ g @ suf \<and> length g = 7 \<and> list_all is_digit g \<and>
        (\<forall>pre' g' suf'. s = pre' @ code @ g' @ suf' \<and> length g' = 7 \<and> list_all is_digit g'
            \<longrightarrow> length pre \<le> length pre'))"

text \<open>
  A work can be filled and inspected: the backend fills it without raising, the filled
  work has a kind and, if that kind is requested, a title that is a string.
\<close>

definition fills_well :: "backend \<Rightarrow> string list \<Rightarrow> movie \<Rightarrow> bool" where
  "fills_well ia cts c =
     (case update ia c of
        Inl _ \<Rightarrow> False
      | Inr m \<Rightarrow> map_of (data m) ''kind'' \<noteq> None \<and> (kind_requested cts m \<longrightarrow> has_title m))"

text \<open>
  Deduplication by canonical id as the specification words it: of the records that share
  an id the first one seen stays, and the order of those that stay is kept.
\<close>

fun dedup_by_canonical_id :: "entry list \<Rightarrow> entry list" where
  "dedup_by_canonical_id [] = []"
| "dedup_by_canonical_id (e # es) =
     e # filter (\<lambda>x. imdb_id x \<noteq> imdb_id e) (dedup_by_canonical_id es)"

text \<open>
  The works from which a person's list is drawn for one pair, as the specification words
  it: those filed under the combined label, and those filed under the bare job type if the
  combined label is absent.
\<close>

definition candidate_works :: "entity \<Rightarrow> string \<Rightarrow> string \<Rightarrow> movie list" where
  "candidate_works obj job_type content_type =
     (if job_type @ '' '' @ content_type \<in> fst ` set obj
      then get_or_empty obj (job_type @ '' '' @ content_type)
      else get_or_empty obj job_type)"

text \<open>The requested job types, with \<open>actress\<close> when \<open>actor\<close> is among them.\<close>

definition expanded_job_types :: "string list \<Rightarrow> string set" where
  "expanded_job_types jts = set jts \<union> (if ''actor'' \<in> set jts then {''actress''} else {})"

subsection \<open>Concrete backends and hosts for the examples\<close>

text \<open>
  A backend that answers every lookup with the same entity, fills a work with nothing
  new and gives the work's identifier as its id; a host that takes every entry as valid.
\<close>

definition ia_of :: "entity \<Rightarrow> backend" where
  "ia_of obj = \<lparr>get_person = (\<lambda>_. Inr obj), get_company = (\<lambda>_. Inr obj),
     get_character = (\<lambda>_. Inr obj), update = Inr, get_imdbID = (\<lambda>m. Inr (movieID m))\<rparr>"

definition all_valid :: "entry \<Rightarrow> bool" where
  "all_valid e = True"

definition dict_order :: "entity_type list" where
  "dict_order = [Person, Company, Character]"

text \<open>
  A person with three credits as actor, of which one is a series, and two credits filed
  as actress, of which one is a work of the first list; a character whose two lists
  share a work.
\<close>

definition work :: "string \<Rightarrow> string \<Rightarrow> string \<Rightarrow> movie" where
  "work i t k = \<lparr>movieID = i, data = [(''title'', Str t), (''kind'', Str k)]\<rparr>"

definition person_example :: entity where
  "person_example =
     [(''actor movie'', [work ''0000001'' ''A'' ''movie'', work ''0000002'' ''B'' ''movie'',
                         work ''0000003'' ''C'' ''tv series'']),
      (''actress'', [work ''0000002'' ''B'' ''movie'', work ''0000004'' ''D'' ''movie''])]"

definition person_example_items :: "movie list" where
  "person_example_items =
     [work ''0000001'' ''A'' ''movie'', work ''0000002'' ''B'' ''movie'',
      work ''0000004'' ''D'' ''movie'']"

definition character_example :: entity where
  "character_example =
     [(''feature'', [work ''0000001'' ''A'' ''movie'']),
      (''video'', [work ''0000001'' ''A'' ''movie''])]"

text \<open>
  A company with 201 works, numbered in unary in title and identifier, and the entries
  made from them; the
  entries of the person above.
\<close>

definition numbered_work :: "nat \<Rightarrow> movie" where
  "numbered_work n =
     \<lparr>movieID = replicate n (CHR ''1''),
      data = [(''title'', Str (replicate n (CHR ''1'')))]\<rparr>"

definition numbered_entry :: "nat \<Rightarrow> entry" where
  "numbered_entry n =
     \<lparr>title = Str (replicate n (CHR ''1'')),
      imdb_id = ''tt'' @ replicate n (CHR ''1''), url = ''''\<rparr>"

definition big_company :: entity where
  "big_company = [(''production companies'', map numbered_work [0..<201])]"

definition person_example_entries :: "entry list" where
  "person_example_entries =
     [\<lparr>title = Str ''A'', imdb_id = ''tt0000001'', url = ''''\<rparr>,
      \<lparr>title = Str ''B'', imdb_id = ''tt0000002'', url = ''''\<rparr>,
      \<lparr>title = Str ''D'', imdb_id = ''tt0000004'', url = ''''\<rparr>]"

text \<open>
  A backend that raises when it fills a work, one that raises when it looks a person up;
  entities whose works lack a field; a company with a work without rating and one rated
  3, with a configuration that asks for a rating of 5 in strict mode; a configuration of
  a person with the job type \<open>actor\<close>, and the same object after one and two runs.
\<close>

definition ia_update_fails :: "entity \<Rightarrow> backend" where
  "ia_update_fails obj = (ia_of obj)\<lparr>update := (\<lambda>_. Inl (BackendError ''update''))\<rparr>"

definition ia_lookup_fails :: backend where
  "ia_lookup_fails = (ia_of [])\<lparr>get_person := (\<lambda>_. Inl (BackendError ''get_person''))\<rparr>"

definition entries_of_work_A :: "entry list" where
  "entries_of_work_A = [\<lparr>title = Str ''A'', imdb_id = ''tt0000001'', url = ''''\<rparr>]"

definition person_untitled :: entity where
  "person_untitled =
     [(''actor movie'', [\<lparr>movieID = ''0000005'', data = [(''kind'', Str ''episode'')]\<rparr>,
                         work ''0000001'' ''A'' ''movie''])]"



definition config_actor :: config where
  "config_actor = Dict [(''id'', Str ''nm0000001''), (''job_types'', Lst [''actor''])]"

definition config_actor_once :: config where
  "config_actor_once =
     Dict [(''id'', Str ''nm0000001''), (''job_types'', Lst [''actor'', ''actress'']),
           (''content_types'', Lst [''movie'']), (''max_entries'', Num 200)]"

definition config_actor_twice :: config where
  "config_actor_twice =
     Dict [(''id'', Str ''nm0000001''), (''job_types'', Lst [''actor'', ''actress'', ''actress'']),
           (''content_types'', Lst [''movie'']), (''max_entries'', Num 200)]"

definition person_kindless :: entity where
  "person_kindless = [(''actor'', [\<lparr>movieID = ''0000007'', data = [(''title'', Str ''K'')]\<rparr>])]"

definition company_untitled :: entity where
  "company_untitled =
     [(''production companies'', [\<lparr>movieID = ''0000006'', data = [(''kind'', Str ''movie'')]\<rparr>])]"

text \<open>
  A backend whose three lookups answer differently and name the digits they were given;
  a configuration with the id of a company alone, and the entries of the rated company.
\<close>

definition ia_kinds :: backend where
  "ia_kinds = \<lparr>get_person = (\<lambda>g. Inr [(''person '' @ g, [])]),
     get_company = (\<lambda>g. Inr [(''company '' @ g, [])]),
     get_character = (\<lambda>g. Inr [(''character '' @ g, [])]),
     update = Inr, get_imdbID = (\<lambda>m. Inr (movieID m))\<rparr>"



section \<open>Running the examples\<close>

lemmas run_defs = on_task_input_def prepare_config_def setdefault_def wrap_string_def
  CONTENT_TYPES_def JOB_TYPES_def dict_order_def match_here_def is_digit_def
  ia_of_def work_def person_lookup_def movie_in_def kind_in_def
  make_entry_def all_valid_def entry_in_def len_le_def config_object_def get_or_empty_def

section \<open>Properties of the enumeration loops\<close>

subsection \<open>The loop over the works of one label\<close>

lemma movie_loop_step_new:
  assumes "update ia c = Inr m" "\<not> movie_in m ms" "kind_requested cts m"
    and "movie_loop ia cts ms (c # rest) = Inr ms'"
  shows "has_title m \<and> movie_loop ia cts (ms @ [m]) rest = Inr ms'"
  using assms
  by (auto simp: kind_requested_def has_title_def split: option.splits pyval.splits)

lemma movie_loop_step_skip:
  assumes "update ia c = Inr m" "movie_in m ms \<or> \<not> kind_requested cts m"
    and "movie_loop ia cts ms (c # rest) = Inr ms'"
  shows "movie_loop ia cts ms rest = Inr ms'"
  using assms
  by (auto simp: kind_requested_def split: option.splits if_splits)

lemma movie_loop_step_update:
  assumes "movie_loop ia cts ms (c # rest) = Inr ms'"
  shows "\<exists>m. update ia c = Inr m"
  using assms by (cases "update ia c") auto

lemma movie_loop_extends:
  "movie_loop ia cts ms l = Inr ms' \<Longrightarrow>
     \<exists>added. ms' = ms @ added \<and>
       (\<forall>m\<in>set added. (\<exists>c\<in>set l. update ia c = Inr m) \<and> kind_requested cts m \<and> has_title m)"
proof (induction l arbitrary: ms)
  case Nil
  then show ?case by simp
next
  case (Cons c rest)
  from movie_loop_step_update[OF Cons.prems] obtain m where m: "update ia c = Inr m" ..
  show ?case
  proof (cases "\<not> movie_in m ms \<and> kind_requested cts m")
    case True
    with movie_loop_step_new[OF m _ _ Cons.prems]
    have t: "has_title m" and r: "movie_loop ia cts (ms @ [m]) rest = Inr ms'" by auto
    from Cons.IH[OF r] obtain added where
      a: "ms' = (ms @ [m]) @ added"
         "\<forall>x\<in>set added. (\<exists>c\<in>set rest. update ia c = Inr x) \<and> kind_requested cts x \<and> has_title x"
      by blast
    have "ms' = ms @ (m # added)" using a(1) by simp
    moreover have "\<forall>x\<in>set (m # added).
        (\<exists>c\<in>set (c # rest). update ia c = Inr x) \<and> kind_requested cts x \<and> has_title x"
      using a(2) m t True by auto
    ultimately show ?thesis by blast
  next
    case False
    with movie_loop_step_skip[OF m _ Cons.prems]
    have "movie_loop ia cts ms rest = Inr ms'" by blast
    from Cons.IH[OF this] show ?thesis by auto
  qed
qed

lemma movie_loop_distinct:
  "movie_loop ia cts ms l = Inr ms' \<Longrightarrow> distinct (map movieID ms) \<Longrightarrow> distinct (map movieID ms')"
proof (induction l arbitrary: ms)
  case Nil
  then show ?case by simp
next
  case (Cons c rest)
  from movie_loop_step_update[OF Cons.prems(1)] obtain m where m: "update ia c = Inr m" ..
  show ?case
  proof (cases "\<not> movie_in m ms \<and> kind_requested cts m")
    case True
    with movie_loop_step_new[OF m _ _ Cons.prems(1)]
    have r: "movie_loop ia cts (ms @ [m]) rest = Inr ms'" by auto
    have "distinct (map movieID (ms @ [m]))"
      using True Cons.prems(2) by (simp add: movie_in_def)
    from Cons.IH[OF r this] show ?thesis .
  next
    case False
    with movie_loop_step_skip[OF m _ Cons.prems(1)]
    have "movie_loop ia cts ms rest = Inr ms'" by blast
    from Cons.IH[OF this Cons.prems(2)] show ?thesis .
  qed
qed

lemma movie_loop_complete:
  "movie_loop ia cts ms l = Inr ms' \<Longrightarrow> c \<in> set l \<Longrightarrow> update ia c = Inr m \<Longrightarrow>
   kind_requested cts m \<Longrightarrow> movieID m \<in> movieID ` set ms'"
proof (induction l arbitrary: ms)
  case Nil
  then show ?case by simp
next
  case (Cons c' rest)
  from movie_loop_step_update[OF Cons.prems(1)] obtain m' where m': "update ia c' = Inr m'" ..
  show ?case
  proof (cases "c = c'")
    case True
    with m' Cons.prems have mm: "m' = m" by simp
    show ?thesis
    proof (cases "movie_in m ms")
      case True
      with movie_loop_step_skip[OF m' _ Cons.prems(1)] mm
      have r: "movie_loop ia cts ms rest = Inr ms'" by blast
      from movie_loop_extends[OF r] True show ?thesis by (auto simp: movie_in_def)
    next
      case False
      with movie_loop_step_new[OF m' _ _ Cons.prems(1)] mm Cons.prems(4)
      have r: "movie_loop ia cts (ms @ [m]) rest = Inr ms'" by blast
      from movie_loop_extends[OF r] show ?thesis by auto
    qed
  next
    case False
    with Cons.prems have cin: "c \<in> set rest" by simp
    have "\<exists>ms1. movie_loop ia cts ms1 rest = Inr ms'"
    proof (cases "\<not> movie_in m' ms \<and> kind_requested cts m'")
      case True
      with movie_loop_step_new[OF m' _ _ Cons.prems(1)] show ?thesis by blast
    next
      case False
      with movie_loop_step_skip[OF m' _ Cons.prems(1)] show ?thesis by blast
    qed
    then obtain ms1 where "movie_loop ia cts ms1 rest = Inr ms'" ..
    from Cons.IH[OF this cin Cons.prems(3,4)] show ?thesis .
  qed
qed

lemma movie_loop_keeps:
  "movie_loop ia cts ms l = Inr ms' \<Longrightarrow> set ms \<subseteq> set ms'"
  using movie_loop_extends by fastforce

subsection \<open>The loop over the content types\<close>

lemma content_loop_step:
  assumes "content_loop ia obj jt cts ms (ct # rest) = Inr ms'"
  shows "\<exists>ms1. content_loop ia obj jt cts ms1 rest = Inr ms' \<and>
     (case person_lookup obj jt ct of None \<Rightarrow> ms1 = ms
      | Some l \<Rightarrow> movie_loop ia cts ms l = Inr ms1)"
  using assms by (auto split: option.splits sum.splits)

lemma content_loop_extends:
  "content_loop ia obj jt cts ms cl = Inr ms' \<Longrightarrow>
     \<exists>added. ms' = ms @ added \<and>
       (\<forall>m\<in>set added.
          (\<exists>ct\<in>set cl. \<exists>l. person_lookup obj jt ct = Some l \<and> (\<exists>c\<in>set l. update ia c = Inr m))
          \<and> kind_requested cts m \<and> has_title m)"
proof (induction cl arbitrary: ms)
  case Nil
  then show ?case by simp
next
  case (Cons ct rest)
  from content_loop_step[OF Cons.prems] obtain ms1 where
    r: "content_loop ia obj jt cts ms1 rest = Inr ms'" and
    s: "case person_lookup obj jt ct of None \<Rightarrow> ms1 = ms
        | Some l \<Rightarrow> movie_loop ia cts ms l = Inr ms1" by blast
  from Cons.IH[OF r] obtain a2 where
    a2: "ms' = ms1 @ a2"
        "\<forall>m\<in>set a2.
          (\<exists>ct\<in>set rest. \<exists>l. person_lookup obj jt ct = Some l \<and> (\<exists>c\<in>set l. update ia c = Inr m))
          \<and> kind_requested cts m \<and> has_title m" by blast
  have "\<exists>a1. ms1 = ms @ a1 \<and> (\<forall>m\<in>set a1.
          (\<exists>l. person_lookup obj jt ct = Some l \<and> (\<exists>c\<in>set l. update ia c = Inr m))
          \<and> kind_requested cts m \<and> has_title m)"
  proof (cases "person_lookup obj jt ct")
    case None
    with s show ?thesis by simp
  next
    case (Some l)
    with s have "movie_loop ia cts ms l = Inr ms1" by simp
    from movie_loop_extends[OF this] Some show ?thesis by auto
  qed
  then obtain a1 where a1: "ms1 = ms @ a1" "\<forall>m\<in>set a1.
          (\<exists>l. person_lookup obj jt ct = Some l \<and> (\<exists>c\<in>set l. update ia c = Inr m))
          \<and> kind_requested cts m \<and> has_title m" by blast
  have "ms' = ms @ (a1 @ a2)" using a1(1) a2(1) by simp
  moreover have "\<forall>m\<in>set (a1 @ a2).
          (\<exists>ct\<in>set (ct # rest). \<exists>l. person_lookup obj jt ct = Some l \<and> (\<exists>c\<in>set l. update ia c = Inr m))
          \<and> kind_requested cts m \<and> has_title m"
    using a1(2) a2(2) by auto
  ultimately show ?case by blast
qed

lemma content_loop_distinct:
  "content_loop ia obj jt cts ms cl = Inr ms' \<Longrightarrow> distinct (map movieID ms) \<Longrightarrow>
   distinct (map movieID ms')"
proof (induction cl arbitrary: ms)
  case Nil
  then show ?case by simp
next
  case (Cons ct rest)
  from content_loop_step[OF Cons.prems(1)] obtain ms1 where
    r: "content_loop ia obj jt cts ms1 rest = Inr ms'" and
    s: "case person_lookup obj jt ct of None \<Rightarrow> ms1 = ms
        | Some l \<Rightarrow> movie_loop ia cts ms l = Inr ms1" by blast
  have "distinct (map movieID ms1)"
    using s Cons.prems(2) by (cases "person_lookup obj jt ct") (auto dest: movie_loop_distinct)
  from Cons.IH[OF r this] show ?case .
qed

lemma content_loop_complete:
  "content_loop ia obj jt cts ms cl = Inr ms' \<Longrightarrow> ct \<in> set cl \<Longrightarrow>
   person_lookup obj jt ct = Some l \<Longrightarrow> c \<in> set l \<Longrightarrow> update ia c = Inr m \<Longrightarrow>
   kind_requested cts m \<Longrightarrow> movieID m \<in> movieID ` set ms'"
proof (induction cl arbitrary: ms)
  case Nil
  then show ?case by simp
next
  case (Cons ct' rest)
  from content_loop_step[OF Cons.prems(1)] obtain ms1 where
    r: "content_loop ia obj jt cts ms1 rest = Inr ms'" and
    s: "case person_lookup obj jt ct' of None \<Rightarrow> ms1 = ms
        | Some l \<Rightarrow> movie_loop ia cts ms l = Inr ms1" by blast
  show ?case
  proof (cases "ct = ct'")
    case True
    with s Cons.prems(3) have "movie_loop ia cts ms l = Inr ms1" by simp
    from movie_loop_complete[OF this Cons.prems(4,5,6)] have "movieID m \<in> movieID ` set ms1" .
    moreover from content_loop_extends[OF r] have "set ms1 \<subseteq> set ms'" by auto
    ultimately show ?thesis by auto
  next
    case False
    with Cons.prems(2) have "ct \<in> set rest" by simp
    from Cons.IH[OF r this Cons.prems(3,4,5,6)] show ?thesis .
  qed
qed

subsection \<open>The loop over the job types\<close>

lemma job_loop_step:
  assumes "job_loop ia obj (Some (Lst cts)) ms (jt # rest) = Inr ms'"
  shows "\<exists>ms1. content_loop ia obj jt cts ms cts = Inr ms1 \<and>
     job_loop ia obj (Some (Lst cts)) ms1 rest = Inr ms'"
  using assms by (auto split: sum.splits)

lemma job_loop_extends:
  "job_loop ia obj (Some (Lst cts)) ms jl = Inr ms' \<Longrightarrow>
     \<exists>added. ms' = ms @ added \<and>
       (\<forall>m\<in>set added.
          (\<exists>jt\<in>set jl. \<exists>ct\<in>set cts. \<exists>l. person_lookup obj jt ct = Some l \<and>
              (\<exists>c\<in>set l. update ia c = Inr m))
          \<and> kind_requested cts m \<and> has_title m)"
proof (induction jl arbitrary: ms)
  case Nil
  then show ?case by simp
next
  case (Cons jt rest)
  from job_loop_step[OF Cons.prems] obtain ms1 where
    s: "content_loop ia obj jt cts ms cts = Inr ms1" and
    r: "job_loop ia obj (Some (Lst cts)) ms1 rest = Inr ms'" by blast
  from content_loop_extends[OF s] obtain a1 where a1: "ms1 = ms @ a1"
     "\<forall>m\<in>set a1.
          (\<exists>ct\<in>set cts. \<exists>l. person_lookup obj jt ct = Some l \<and> (\<exists>c\<in>set l. update ia c = Inr m))
          \<and> kind_requested cts m \<and> has_title m" by blast
  from Cons.IH[OF r] obtain a2 where a2: "ms' = ms1 @ a2"
     "\<forall>m\<in>set a2.
          (\<exists>jt\<in>set rest. \<exists>ct\<in>set cts. \<exists>l. person_lookup obj jt ct = Some l \<and>
              (\<exists>c\<in>set l. update ia c = Inr m))
          \<and> kind_requested cts m \<and> has_title m" by blast
  have "ms' = ms @ (a1 @ a2)" using a1(1) a2(1) by simp
  moreover have "\<forall>m\<in>set (a1 @ a2).
          (\<exists>jt\<in>set (jt # rest). \<exists>ct\<in>set cts. \<exists>l. person_lookup obj jt ct = Some l \<and>
              (\<exists>c\<in>set l. update ia c = Inr m))
          \<and> kind_requested cts m \<and> has_title m"
    using a1(2) a2(2) by auto
  ultimately show ?case by blast
qed

lemma job_loop_distinct:
  "job_loop ia obj (Some (Lst cts)) ms jl = Inr ms' \<Longrightarrow> distinct (map movieID ms) \<Longrightarrow>
   distinct (map movieID ms')"
proof (induction jl arbitrary: ms)
  case Nil
  then show ?case by simp
next
  case (Cons jt rest)
  from job_loop_step[OF Cons.prems(1)] obtain ms1 where
    s: "content_loop ia obj jt cts ms cts = Inr ms1" and
    r: "job_loop ia obj (Some (Lst cts)) ms1 rest = Inr ms'" by blast
  from content_loop_distinct[OF s Cons.prems(2)] Cons.IH[OF r] show ?case by blast
qed

lemma job_loop_complete:
  "job_loop ia obj (Some (Lst cts)) ms jl = Inr ms' \<Longrightarrow> jt \<in> set jl \<Longrightarrow> ct \<in> set cts \<Longrightarrow>
   person_lookup obj jt ct = Some l \<Longrightarrow> c \<in> set l \<Longrightarrow> update ia c = Inr m \<Longrightarrow>
   kind_requested cts m \<Longrightarrow> movieID m \<in> movieID ` set ms'"
proof (induction jl arbitrary: ms)
  case Nil
  then show ?case by simp
next
  case (Cons jt' rest)
  from job_loop_step[OF Cons.prems(1)] obtain ms1 where
    s: "content_loop ia obj jt' cts ms cts = Inr ms1" and
    r: "job_loop ia obj (Some (Lst cts)) ms1 rest = Inr ms'" by blast
  show ?case
  proof (cases "jt = jt'")
    case True
    with s have "content_loop ia obj jt cts ms cts = Inr ms1" by simp
    from content_loop_complete[OF this Cons.prems(3,4,5,6,7)]
    have "movieID m \<in> movieID ` set ms1" .
    moreover from job_loop_extends[OF r] have "set ms1 \<subseteq> set ms'" by auto
    ultimately show ?thesis by auto
  next
    case False
    with Cons.prems(2) have "jt \<in> set rest" by simp
    from Cons.IH[OF r this Cons.prems(3,4,5,6,7)] show ?thesis .
  qed
qed


section \<open>Resolution of the identifier\<close>

subsection \<open>The search finds the pattern\<close>

text \<open>
  The search answers with a group exactly when the identifier holds the two letters
  followed by seven digits somewhere, and the group is such seven digits.
\<close>

lemma match_here_iff:
  "match_here code s = Some g \<longleftrightarrow>
     (\<exists>suf. s = code @ g @ suf \<and> length g = 7 \<and> list_all is_digit g)"
proof
  assume "match_here code s = Some g"
  then have h: "take (length code) s = code" "g = take 7 (drop (length code) s)"
    "length g = 7" "list_all is_digit g"
    by (auto simp: match_here_def Let_def split: if_splits)
  have "s = take (length code) s @ take 7 (drop (length code) s) @ drop 7 (drop (length code) s)"
    by (simp only: append_take_drop_id)
  with h have "s = code @ g @ drop 7 (drop (length code) s)" by simp
  with h show "\<exists>suf. s = code @ g @ suf \<and> length g = 7 \<and> list_all is_digit g" by blast
next
  assume "\<exists>suf. s = code @ g @ suf \<and> length g = 7 \<and> list_all is_digit g"
  then show "match_here code s = Some g"
    by (auto simp: match_here_def Let_def)
qed

lemma re_search_Some:
  "re_search code s = Some g \<Longrightarrow>
     \<exists>pre suf. s = pre @ code @ g @ suf \<and> length g = 7 \<and> list_all is_digit g"
proof (induction s)
  case Nil
  then have "match_here code [] = Some g" by simp
  then obtain suf where "[] = code @ g @ suf" "length g = 7" "list_all is_digit g"
    unfolding match_here_iff by blast
  then show ?case by simp
next
  case (Cons c s)
  show ?case
  proof (cases "match_here code (c # s)")
    case (Some g')
    with Cons.prems have "match_here code (c # s) = Some g" by simp
    then obtain suf where "c # s = [] @ code @ g @ suf" "length g = 7" "list_all is_digit g"
      unfolding match_here_iff by auto
    then show ?thesis by blast
  next
    case None
    with Cons.prems have "re_search code s = Some g" by simp
    from Cons.IH[OF this] obtain pre suf where
      "s = pre @ code @ g @ suf" "length g = 7" "list_all is_digit g" by blast
    then have "c # s = (c # pre) @ code @ g @ suf" by simp
    with \<open>length g = 7\<close> \<open>list_all is_digit g\<close> show ?thesis by blast
  qed
qed

lemma re_search_found:
  "length g = 7 \<Longrightarrow> list_all is_digit g \<Longrightarrow> re_search code (pre @ code @ g @ suf) \<noteq> None"
proof (induction pre)
  case Nil
  then have "match_here code (code @ g @ suf) = Some g"
    unfolding match_here_iff by blast
  then show ?case by (cases "code @ g @ suf") auto
next
  case (Cons c pre)
  then show ?case by (auto split: option.splits)
qed

lemma re_search_iff:
  "re_search code s \<noteq> None \<longleftrightarrow>
     (\<exists>pre g suf. s = pre @ code @ g @ suf \<and> length g = 7 \<and> list_all is_digit g)"
  using re_search_Some re_search_found by (metis not_None_eq)

lemma pattern_in_search: "pattern_in code s \<longleftrightarrow> re_search code s \<noteq> None"
  unfolding pattern_in_def by (rule re_search_iff[symmetric])

lemma re_search_first_group:
  "re_search code s = Some g \<Longrightarrow> first_group code s g"
proof (induction s)
  case Nil
  then have "match_here code [] = Some g" by simp
  then obtain suf where "[] = code @ g @ suf" "length g = 7" "list_all is_digit g"
    unfolding match_here_iff by blast
  then show ?case by simp
next
  case (Cons c s)
  show ?case
  proof (cases "match_here code (c # s)")
    case (Some g')
    with Cons.prems have "match_here code (c # s) = Some g" by simp
    then obtain suf where "c # s = [] @ code @ g @ suf" "length g = 7" "list_all is_digit g"
      unfolding match_here_iff by auto
    then show ?thesis unfolding first_group_def
      by (intro exI[of _ "[]"] exI[of _ suf]) simp
  next
    case None
    with Cons.prems have "re_search code s = Some g" by simp
    from Cons.IH[OF this] obtain pre suf where
      p: "s = pre @ code @ g @ suf" "length g = 7" "list_all is_digit g"
      and least: "\<forall>pre' g' suf'. s = pre' @ code @ g' @ suf' \<and> length g' = 7 \<and>
            list_all is_digit g' \<longrightarrow> length pre \<le> length pre'"
      unfolding first_group_def by blast
    have "\<forall>pre' g' suf'. c # s = pre' @ code @ g' @ suf' \<and> length g' = 7 \<and>
            list_all is_digit g' \<longrightarrow> length (c # pre) \<le> length pre'"
    proof (intro allI impI)
      fix pre' g' suf'
      assume a: "c # s = pre' @ code @ g' @ suf' \<and> length g' = 7 \<and> list_all is_digit g'"
      show "length (c # pre) \<le> length pre'"
      proof (cases pre')
        case Nil
        with a have "match_here code (c # s) = Some g'"
          unfolding match_here_iff by auto
        with None show ?thesis by simp
      next
        case (Cons c' pre'')
        with a have "s = pre'' @ code @ g' @ suf'" by simp
        with a least have "length pre \<le> length pre''" by blast
        with Cons show ?thesis by simp
      qed
    qed
    moreover have "c # s = (c # pre) @ code @ g @ suf" using p(1) by simp
    ultimately show ?thesis unfolding first_group_def using p(2,3) by blast
  qed
qed

lemma first_group_unique:
  assumes "first_group code s g" "first_group code s g'"
  shows "g = g'"
proof -
  from assms(1) obtain pre suf where
    a: "s = pre @ code @ g @ suf" "length g = 7" "list_all is_digit g"
    and la: "\<forall>p h t. s = p @ code @ h @ t \<and> length h = 7 \<and> list_all is_digit h
            \<longrightarrow> length pre \<le> length p"
    unfolding first_group_def by blast
  from assms(2) obtain pre' suf' where
    b: "s = pre' @ code @ g' @ suf'" "length g' = 7" "list_all is_digit g'"
    and lb: "\<forall>p h t. s = p @ code @ h @ t \<and> length h = 7 \<and> list_all is_digit h
            \<longrightarrow> length pre' \<le> length p"
    unfolding first_group_def by blast
  from la b have "length pre \<le> length pre'" by blast
  moreover from lb a have "length pre' \<le> length pre" by blast
  ultimately have l: "length pre = length pre'" by simp
  from a(1) b(1) have "pre @ code @ g @ suf = pre' @ code @ g' @ suf'" by simp
  with l have "g @ suf = g' @ suf'" by simp
  with a(2) b(2) show ?thesis by simp
qed

subsection \<open>The loop over the kinds\<close>

lemma map_of_setdefault:
  "map_of (setdefault k v d) k' =
     (if k' = k then (case map_of d k of None \<Rightarrow> Some v | Some x \<Rightarrow> Some x) else map_of d k')"
  by (auto simp: setdefault_def map_add_def split: option.splits)

lemma map_of_wrap_string:
  "map_of (wrap_string k d) k' =
     (if k' = k then (case map_of d k of Some (Str s) \<Rightarrow> Some (Lst [s]) | x \<Rightarrow> x)
      else map_of d k')"
  by (auto simp: wrap_string_def AList.update_conv' split: option.splits pyval.splits)

lemma prepare_config_id:
  "map_of (prepare_config c) ''id'' =
     (case c of Bare s \<Rightarrow> Some (Str s) | Dict d \<Rightarrow> map_of d ''id'')"
  by (cases c) (simp_all add: prepare_config_def Let_def map_of_setdefault map_of_wrap_string)

lemma entity_type_and_object_none:
  "\<forall>t\<in>set order. re_search (ENTITIES_FORMATS t) s = None \<Longrightarrow>
   entity_type_and_object ia order s = Inr None"
  by (induction order) simp_all

lemma entity_type_and_object_only:
  "t \<in> set order \<Longrightarrow> re_search (ENTITIES_FORMATS t) s = Some g \<Longrightarrow>
   \<forall>t'\<in>set order. t' \<noteq> t \<longrightarrow> re_search (ENTITIES_FORMATS t') s = None \<Longrightarrow>
   entity_type_and_object ia order s =
     (case backend_get ia t g of Inl e \<Rightarrow> Inl e | Inr obj \<Rightarrow> Inr (Some (t, obj)))"
proof (induction order)
  case Nil
  then show ?case by simp
next
  case (Cons t' order)
  show ?case
  proof (cases "t' = t")
    case True
    with Cons.prems(2) show ?thesis by (simp split: sum.splits)
  next
    case False
    with Cons.prems have "re_search (ENTITIES_FORMATS t') s = None" "t \<in> set order" by auto
    with Cons show ?thesis by simp
  qed
qed

lemma on_task_input_unresolved:
  assumes "map_of (prepare_config config) ''id'' = Some (Str s)"
    and "entity_type_and_object ia order s = Inr None"
  shows "on_task_input (Some ia) isvalid order config =
           (config_object config (prepare_config config), [CouldNotResolve], Inr None)"
  using assms by (simp add: on_task_input_def Let_def)

lemma kinds_of_order:
  assumes "set order = {Person, Company, Character}"
  shows "t \<in> set order"
  using assms by (cases t) auto

lemma resolve_only:
  assumes "set order = {Person, Company, Character}"
    and "pattern_in (ENTITIES_FORMATS t) s"
    and "\<forall>t'. t' \<noteq> t \<longrightarrow> \<not> pattern_in (ENTITIES_FORMATS t') s"
  shows "\<exists>g. first_group (ENTITIES_FORMATS t) s g \<and>
     entity_type_and_object ia order s =
       (case backend_get ia t g of Inl e \<Rightarrow> Inl e | Inr obj \<Rightarrow> Inr (Some (t, obj)))"
proof -
  from assms(2) obtain g where g: "re_search (ENTITIES_FORMATS t) s = Some g"
    by (auto simp: pattern_in_search)
  have "\<forall>t'\<in>set order. t' \<noteq> t \<longrightarrow> re_search (ENTITIES_FORMATS t') s = None"
    using assms(3) by (simp add: pattern_in_search)
  from entity_type_and_object_only[OF kinds_of_order[OF assms(1)] g this]
    re_search_first_group[OF g]
  show ?thesis by blast
qed

text \<open>
  C8: when the pattern of exactly one kind occurs in the identifier, whatever the order in
  which the three kinds are tried, the identifier is classified as that kind and the
  result is what the backend's lookup of that kind, \<open>get_person\<close>, \<open>get_company\<close> or
  \<open>get_character\<close>, answers for the seven digits of the leftmost occurrence; when no
  pattern occurs, the identifier is not resolved, and the run reports it and returns
  nothing.
\<close>

theorem resolve_by_kind:
  "(set order = {Person, Company, Character} \<and>
    pattern_in ''nm'' s \<and> \<not> pattern_in ''co'' s \<and> \<not> pattern_in ''ch'' s \<longrightarrow>
      (\<exists>g. first_group ''nm'' s g \<and>
           entity_type_and_object ia order s =
             (case get_person ia g of Inl e \<Rightarrow> Inl e | Inr obj \<Rightarrow> Inr (Some (Person, obj)))))
   \<and> (set order = {Person, Company, Character} \<and>
    \<not> pattern_in ''nm'' s \<and> pattern_in ''co'' s \<and> \<not> pattern_in ''ch'' s \<longrightarrow>
      (\<exists>g. first_group ''co'' s g \<and>
           entity_type_and_object ia order s =
             (case get_company ia g of Inl e \<Rightarrow> Inl e | Inr obj \<Rightarrow> Inr (Some (Company, obj)))))
   \<and> (set order = {Person, Company, Character} \<and>
    \<not> pattern_in ''nm'' s \<and> \<not> pattern_in ''co'' s \<and> pattern_in ''ch'' s \<longrightarrow>
      (\<exists>g. first_group ''ch'' s g \<and>
           entity_type_and_object ia order s =
             (case get_character ia g of
                Inl e \<Rightarrow> Inl e | Inr obj \<Rightarrow> Inr (Some (Character, obj)))))
   \<and> (\<not> pattern_in ''nm'' s \<and> \<not> pattern_in ''co'' s \<and> \<not> pattern_in ''ch'' s \<longrightarrow>
        entity_type_and_object ia order s = Inr None \<and>
        on_task_input (Some ia) isvalid order (Bare s) = (Bare s, [CouldNotResolve], Inr None) \<and>
        (map_of d ''id'' = Some (Str s) \<longrightarrow>
           snd (on_task_input (Some ia) isvalid order (Dict d)) = ([CouldNotResolve], Inr None)))"
proof (intro conjI impI)
  assume a: "set order = {Person, Company, Character} \<and>
    pattern_in ''nm'' s \<and> \<not> pattern_in ''co'' s \<and> \<not> pattern_in ''ch'' s"
  have "\<forall>t'. t' \<noteq> Person \<longrightarrow> \<not> pattern_in (ENTITIES_FORMATS t') s"
  proof (intro allI impI)
    fix t' :: entity_type assume "t' \<noteq> Person"
    with a show "\<not> pattern_in (ENTITIES_FORMATS t') s" by (cases t') auto
  qed
  with resolve_only[of order Person s ia] a
  show "\<exists>g. first_group ''nm'' s g \<and>
           entity_type_and_object ia order s =
             (case get_person ia g of Inl e \<Rightarrow> Inl e | Inr obj \<Rightarrow> Inr (Some (Person, obj)))"
    by simp
next
  assume a: "set order = {Person, Company, Character} \<and>
    \<not> pattern_in ''nm'' s \<and> pattern_in ''co'' s \<and> \<not> pattern_in ''ch'' s"
  have "\<forall>t'. t' \<noteq> Company \<longrightarrow> \<not> pattern_in (ENTITIES_FORMATS t') s"
  proof (intro allI impI)
    fix t' :: entity_type assume "t' \<noteq> Company"
    with a show "\<not> pattern_in (ENTITIES_FORMATS t') s" by (cases t') auto
  qed
  with resolve_only[of order Company s ia] a
  show "\<exists>g. first_group ''co'' s g \<and>
           entity_type_and_object ia order s =
             (case get_company ia g of Inl e \<Rightarrow> Inl e | Inr obj \<Rightarrow> Inr (Some (Company, obj)))"
    by simp
next
  assume a: "set order = {Person, Company, Character} \<and>
    \<not> pattern_in ''nm'' s \<and> \<not> pattern_in ''co'' s \<and> pattern_in ''ch'' s"
  have "\<forall>t'. t' \<noteq> Character \<longrightarrow> \<not> pattern_in (ENTITIES_FORMATS t') s"
  proof (intro allI impI)
    fix t' :: entity_type assume "t' \<noteq> Character"
    with a show "\<not> pattern_in (ENTITIES_FORMATS t') s" by (cases t') auto
  qed
  with resolve_only[of order Character s ia] a
  show "\<exists>g. first_group ''ch'' s g \<and>
           entity_type_and_object ia order s =
             (case get_character ia g of
                Inl e \<Rightarrow> Inl e | Inr obj \<Rightarrow> Inr (Some (Character, obj)))"
    by simp
next
  assume e: "\<not> pattern_in ''nm'' s \<and> \<not> pattern_in ''co'' s \<and> \<not> pattern_in ''ch'' s"
  have n: "\<forall>t\<in>set order. re_search (ENTITIES_FORMATS t) s = None"
  proof
    fix t assume "t \<in> set order"
    from e show "re_search (ENTITIES_FORMATS t) s = None"
      by (cases t) (auto simp: pattern_in_search)
  qed
  show r: "entity_type_and_object ia order s = Inr None"
    by (rule entity_type_and_object_none[OF n])
  show "on_task_input (Some ia) isvalid order (Bare s) = (Bare s, [CouldNotResolve], Inr None)"
    using on_task_input_unresolved[of "Bare s" s ia order isvalid] r
    by (simp add: prepare_config_id config_object_def)
  assume "map_of d ''id'' = Some (Str s)"
  then show "snd (on_task_input (Some ia) isvalid order (Dict d)) = ([CouldNotResolve], Inr None)"
    using on_task_input_unresolved[of "Dict d" s ia order isvalid] r
    by (simp add: prepare_config_id)
qed

lemma first_group_by_search:
  "re_search code s = Some g \<Longrightarrow> first_group code s g' \<Longrightarrow> g' = g"
  using first_group_unique re_search_first_group by blast

theorem resolve_by_kind_witness:
  "entity_type_and_object ia_kinds dict_order
        ''http://www.imdb.com/character/ch0001354/?ref_=tt_cl_t1''
     = Inr (Some (Character, [(''character 0001354'', [])]))
   \<and> entity_type_and_object ia_kinds [Company, Character, Person] ''co0051941''
     = Inr (Some (Company, [(''company 0051941'', [])]))
   \<and> entity_type_and_object ia_kinds [Character, Person, Company] ''nm0000375''
     = Inr (Some (Person, [(''person 0000375'', [])]))
   \<and> on_task_input (Some ia_kinds) all_valid dict_order (Bare ''tt0001354'')
        = (Bare ''tt0001354'', [CouldNotResolve], Inr None)"
proof -
  let ?c = "''http://www.imdb.com/character/ch0001354/?ref_=tt_cl_t1''"
  have o: "set dict_order = {Person, Company, Character}"
    "set [Company, Character, Person] = {Person, Company, Character}"
    "set [Character, Person, Company] = {Person, Company, Character}"
    by (auto simp: dict_order_def)
  have sc: "re_search ''ch'' ?c = Some ''0001354''" "re_search ''nm'' ?c = None"
    "re_search ''co'' ?c = None"
    by (simp_all add: match_here_def is_digit_def)
  have sk: "re_search ''co'' ''co0051941'' = Some ''0051941''"
    "re_search ''nm'' ''co0051941'' = None" "re_search ''ch'' ''co0051941'' = None"
    by (simp_all add: match_here_def is_digit_def)
  have sp: "re_search ''nm'' ''nm0000375'' = Some ''0000375''"
    "re_search ''co'' ''nm0000375'' = None" "re_search ''ch'' ''nm0000375'' = None"
    by (simp_all add: match_here_def is_digit_def)
  have st: "re_search ''nm'' ''tt0001354'' = None" "re_search ''co'' ''tt0001354'' = None"
    "re_search ''ch'' ''tt0001354'' = None"
    by (simp_all add: match_here_def is_digit_def)
  from resolve_by_kind[of dict_order ?c ia_kinds] o sc
  obtain g where "first_group ''ch'' ?c g"
    "entity_type_and_object ia_kinds dict_order ?c =
       (case get_character ia_kinds g of
          Inl e \<Rightarrow> Inl e | Inr obj \<Rightarrow> Inr (Some (Character, obj)))"
    by (auto simp: pattern_in_search)
  with first_group_by_search[OF sc(1)]
  have a: "entity_type_and_object ia_kinds dict_order ?c
     = Inr (Some (Character, [(''character 0001354'', [])]))"
    by (simp add: ia_kinds_def)
  from resolve_by_kind[of "[Company, Character, Person]" "''co0051941''" ia_kinds] o sk
  obtain g where "first_group ''co'' ''co0051941'' g"
    "entity_type_and_object ia_kinds [Company, Character, Person] ''co0051941'' =
       (case get_company ia_kinds g of
          Inl e \<Rightarrow> Inl e | Inr obj \<Rightarrow> Inr (Some (Company, obj)))"
    by (auto simp: pattern_in_search)
  with first_group_by_search[OF sk(1)]
  have b: "entity_type_and_object ia_kinds [Company, Character, Person] ''co0051941''
     = Inr (Some (Company, [(''company 0051941'', [])]))"
    by (simp add: ia_kinds_def)
  from resolve_by_kind[of "[Character, Person, Company]" "''nm0000375''" ia_kinds] o sp
  obtain g where "first_group ''nm'' ''nm0000375'' g"
    "entity_type_and_object ia_kinds [Character, Person, Company] ''nm0000375'' =
       (case get_person ia_kinds g of
          Inl e \<Rightarrow> Inl e | Inr obj \<Rightarrow> Inr (Some (Person, obj)))"
    by (auto simp: pattern_in_search)
  with first_group_by_search[OF sp(1)]
  have c: "entity_type_and_object ia_kinds [Character, Person, Company] ''nm0000375''
     = Inr (Some (Person, [(''person 0000375'', [])]))"
    by (simp add: ia_kinds_def)
  from resolve_by_kind[of dict_order "''tt0001354''" ia_kinds all_valid] st
  have d: "on_task_input (Some ia_kinds) all_valid dict_order (Bare ''tt0001354'')
        = (Bare ''tt0001354'', [CouldNotResolve], Inr None)"
    by (simp add: pattern_in_search)
  from a b c d show ?thesis by simp
qed


section \<open>The enumeration of works\<close>

lemma candidate_works_lookup:
  "candidate_works obj jt ct = (case person_lookup obj jt ct of Some l \<Rightarrow> l | None \<Rightarrow> [])"
proof (cases "map_of obj (jt @ '' '' @ ct)")
  case None
  then have "jt @ '' '' @ ct \<notin> fst ` set obj" by (simp add: map_of_eq_None_iff)
  with None show ?thesis
    by (simp add: candidate_works_def person_lookup_def get_or_empty_def)
next
  case (Some l)
  then have "jt @ '' '' @ ct \<in> fst ` set obj" by (meson domI domIff map_of_eq_None_iff)
  with Some show ?thesis
    by (simp add: candidate_works_def person_lookup_def get_or_empty_def)
qed

lemma in_candidate_works:
  "c \<in> set (candidate_works obj jt ct) \<longleftrightarrow>
     (\<exists>l. person_lookup obj jt ct = Some l \<and> c \<in> set l)"
  by (cases "person_lookup obj jt ct") (simp_all add: candidate_works_lookup)

lemma kind_requested_Str:
  "kind_requested cts m \<Longrightarrow> \<exists>k. map_of (data m) ''kind'' = Some (Str k) \<and> k \<in> set cts"
  by (auto simp: kind_requested_def kind_in_def split: option.splits pyval.splits)

lemma items_by_entity_Person_Inr:
  assumes "snd (items_by_entity ia Person obj cts_v (Some (Lst jts))) = Inr (Some ms)"
  shows "job_loop ia obj cts_v []
           (if ''actor'' \<in> set jts then jts @ [''actress''] else jts) = Inr ms"
proof -
  let ?jl = "if ''actor'' \<in> set jts then jts @ [''actress''] else jts"
  from assms have "map_sum id Some (job_loop ia obj cts_v [] ?jl) = Inr (Some ms)"
    by (simp add: Let_def)
  then show ?thesis by (cases "job_loop ia obj cts_v [] ?jl") auto
qed

lemma set_expanded:
  "set (if ''actor'' \<in> set jts then jts @ [''actress''] else jts) = expanded_job_types jts"
  by (auto simp: expanded_job_types_def)

text \<open>
  C7: for a person, every work of the returned list has a kind among the requested content
  types and was drawn, for some pair of a job type and a content type, from the works
  filed under the combined label, or under the bare job type when the combined label is
  absent; and for every pair of the requested job types and content types, every work so
  filed whose kind is requested is in the list.
\<close>

theorem person_candidates:
  assumes "snd (items_by_entity ia Person obj (Some (Lst cts)) (Some (Lst jts))) = Inr (Some ms)"
  shows "(\<forall>m\<in>set ms.
            (\<exists>k. map_of (data m) ''kind'' = Some (Str k) \<and> k \<in> set cts) \<and>
            (\<exists>jt\<in>expanded_job_types jts. \<exists>ct\<in>set cts.
               \<exists>c\<in>set (candidate_works obj jt ct). update ia c = Inr m))
       \<and> (\<forall>jt\<in>set jts. \<forall>ct\<in>set cts. \<forall>c\<in>set (candidate_works obj jt ct). \<forall>m.
             update ia c = Inr m \<longrightarrow> kind_requested cts m \<longrightarrow> movieID m \<in> movieID ` set ms)"
proof -
  let ?jl = "if ''actor'' \<in> set jts then jts @ [''actress''] else jts"
  have jl: "job_loop ia obj (Some (Lst cts)) [] ?jl = Inr ms"
    by (rule items_by_entity_Person_Inr[OF assms])
  from job_loop_extends[OF jl] have
    ext: "\<forall>m\<in>set ms.
          (\<exists>jt\<in>set ?jl. \<exists>ct\<in>set cts. \<exists>l. person_lookup obj jt ct = Some l \<and>
              (\<exists>c\<in>set l. update ia c = Inr m))
          \<and> kind_requested cts m \<and> has_title m" by simp
  have sound: "\<forall>m\<in>set ms.
            (\<exists>k. map_of (data m) ''kind'' = Some (Str k) \<and> k \<in> set cts) \<and>
            (\<exists>jt\<in>expanded_job_types jts. \<exists>ct\<in>set cts.
               \<exists>c\<in>set (candidate_works obj jt ct). update ia c = Inr m)"
  proof
    fix m assume "m \<in> set ms"
    with ext obtain jt ct l c where
      h: "jt \<in> set ?jl" "ct \<in> set cts" "person_lookup obj jt ct = Some l" "c \<in> set l"
         "update ia c = Inr m" "kind_requested cts m" by blast
    from h(1) have "jt \<in> expanded_job_types jts" unfolding set_expanded .
    moreover from h(3,4) have "c \<in> set (candidate_works obj jt ct)"
      by (simp add: in_candidate_works)
    ultimately show "(\<exists>k. map_of (data m) ''kind'' = Some (Str k) \<and> k \<in> set cts) \<and>
            (\<exists>jt\<in>expanded_job_types jts. \<exists>ct\<in>set cts.
               \<exists>c\<in>set (candidate_works obj jt ct). update ia c = Inr m)"
      using h(2,5) kind_requested_Str[OF h(6)] by blast
  qed
  have complete: "\<forall>jt\<in>set jts. \<forall>ct\<in>set cts. \<forall>c\<in>set (candidate_works obj jt ct). \<forall>m.
             update ia c = Inr m \<longrightarrow> kind_requested cts m \<longrightarrow> movieID m \<in> movieID ` set ms"
  proof (intro ballI allI impI)
    fix jt ct c m
    assume h: "jt \<in> set jts" "ct \<in> set cts" "c \<in> set (candidate_works obj jt ct)"
      "update ia c = Inr m" "kind_requested cts m"
    from h(3) obtain l where l: "person_lookup obj jt ct = Some l" "c \<in> set l"
      by (auto simp: in_candidate_works)
    from h(1) have "jt \<in> set ?jl" by simp
    from job_loop_complete[OF jl this h(2) l h(4,5)]
    show "movieID m \<in> movieID ` set ms" .
  qed
  from sound complete show ?thesis by blast
qed

lemma distinct_count_list_1:
  "distinct xs \<Longrightarrow> x \<in> set xs \<Longrightarrow> count_list xs x = 1"
  by (induction xs) auto

lemma movie_loop_total:
  "\<forall>c\<in>set l. fills_well ia cts c \<Longrightarrow> \<exists>ms'. movie_loop ia cts ms l = Inr ms'"
proof (induction l arbitrary: ms)
  case Nil
  then show ?case by simp
next
  case (Cons c rest)
  then have w: "fills_well ia cts c" and r: "\<forall>c\<in>set rest. fills_well ia cts c" by simp_all
  from w obtain m k where m: "update ia c = Inr m" "map_of (data m) ''kind'' = Some k"
    "kind_requested cts m \<longrightarrow> has_title m"
    by (auto simp: fills_well_def split: sum.splits)
  show ?case
  proof (cases "\<not> movie_in m ms \<and> kind_in k cts")
    case True
    with m have "has_title m" by (simp add: kind_requested_def)
    then obtain t where "map_of (data m) ''title'' = Some (Str t)"
      by (auto simp: has_title_def split: option.splits pyval.splits)
    with m True Cons.IH[OF r, of "ms @ [m]"] show ?thesis by simp
  next
    case False
    with m Cons.IH[OF r, of ms] show ?thesis by auto
  qed
qed

lemma content_loop_total:
  "\<forall>ct\<in>set cl. \<forall>c\<in>set (candidate_works obj jt ct). fills_well ia cts c \<Longrightarrow>
   \<exists>ms'. content_loop ia obj jt cts ms cl = Inr ms'"
proof (induction cl arbitrary: ms)
  case Nil
  then show ?case by simp
next
  case (Cons ct rest)
  then have r: "\<forall>ct\<in>set rest. \<forall>c\<in>set (candidate_works obj jt ct). fills_well ia cts c"
    and h: "\<forall>c\<in>set (candidate_works obj jt ct). fills_well ia cts c" by simp_all
  show ?case
  proof (cases "person_lookup obj jt ct")
    case None
    with Cons.IH[OF r, of ms] show ?thesis by simp
  next
    case (Some l)
    with h have "\<forall>c\<in>set l. fills_well ia cts c" by (simp add: candidate_works_lookup)
    from movie_loop_total[OF this, of ms] obtain ms1 where
      "movie_loop ia cts ms l = Inr ms1" ..
    with Some Cons.IH[OF r, of ms1] show ?thesis by simp
  qed
qed

lemma job_loop_total:
  "\<forall>jt\<in>set jl. \<forall>ct\<in>set cts. \<forall>c\<in>set (candidate_works obj jt ct). fills_well ia cts c \<Longrightarrow>
   \<exists>ms'. job_loop ia obj (Some (Lst cts)) ms jl = Inr ms'"
proof (induction jl arbitrary: ms)
  case Nil
  then show ?case by simp
next
  case (Cons jt rest)
  then have r: "\<forall>jt\<in>set rest. \<forall>ct\<in>set cts. \<forall>c\<in>set (candidate_works obj jt ct).
      fills_well ia cts c"
    and h: "\<forall>ct\<in>set cts. \<forall>c\<in>set (candidate_works obj jt ct). fills_well ia cts c"
    by simp_all
  from content_loop_total[OF h, of ms] obtain ms1 where
    "content_loop ia obj jt cts ms cts = Inr ms1" ..
  with Cons.IH[OF r, of ms1] show ?case by simp
qed

text \<open>
  C4: when \<open>actor\<close> is among the job types of a person's enumeration, the list holds one
  more element, \<open>actress\<close>, after the call, whatever the content types; and when every
  work filed under the labels of the extended list can be filled and inspected, the call
  returns a list in which every work filed as actress whose kind is requested is found
  once.
\<close>

theorem actress_expansion:
  "''actor'' \<in> set jts \<longrightarrow>
     fst (items_by_entity ia Person obj cts_v (Some (Lst jts))) = Some (Lst (jts @ [''actress'']))
     \<and> ((\<forall>jt\<in>set (jts @ [''actress'']). \<forall>ct\<in>set cts. \<forall>c\<in>set (candidate_works obj jt ct).
            fills_well ia cts c) \<longrightarrow>
        (\<exists>ms. items_by_entity ia Person obj (Some (Lst cts)) (Some (Lst jts))
                = (Some (Lst (jts @ [''actress''])), Inr (Some ms)) \<and>
              (\<forall>ct\<in>set cts. \<forall>c\<in>set (candidate_works obj ''actress'' ct). \<forall>m.
                  update ia c = Inr m \<longrightarrow> kind_requested cts m \<longrightarrow>
                  count_list (map movieID ms) (movieID m) = 1)))"
proof (intro impI conjI)
  assume a: "''actor'' \<in> set jts"
  then show "fst (items_by_entity ia Person obj cts_v (Some (Lst jts)))
      = Some (Lst (jts @ [''actress'']))"
    by (simp add: Let_def)
  assume w: "\<forall>jt\<in>set (jts @ [''actress'']). \<forall>ct\<in>set cts. \<forall>c\<in>set (candidate_works obj jt ct).
            fills_well ia cts c"
  from job_loop_total[OF w, of "[]"] obtain ms where
    jl: "job_loop ia obj (Some (Lst cts)) [] (jts @ [''actress'']) = Inr ms" ..
  with a have run: "items_by_entity ia Person obj (Some (Lst cts)) (Some (Lst jts))
                = (Some (Lst (jts @ [''actress''])), Inr (Some ms))"
    by (simp add: Let_def)
  have "\<forall>ct\<in>set cts. \<forall>c\<in>set (candidate_works obj ''actress'' ct). \<forall>m.
                  update ia c = Inr m \<longrightarrow> kind_requested cts m \<longrightarrow>
                  count_list (map movieID ms) (movieID m) = 1"
  proof (intro ballI allI impI)
    fix ct c m
    assume h: "ct \<in> set cts" "c \<in> set (candidate_works obj ''actress'' ct)"
      "update ia c = Inr m" "kind_requested cts m"
    from h(2) obtain l where l: "person_lookup obj ''actress'' ct = Some l" "c \<in> set l"
      by (auto simp: in_candidate_works)
    have "''actress'' \<in> set (jts @ [''actress''])" by simp
    from job_loop_complete[OF jl this h(1) l h(3,4)]
    have "movieID m \<in> set (map movieID ms)" by simp
    moreover have "distinct (map movieID ms)" using job_loop_distinct[OF jl] by simp
    ultimately show "count_list (map movieID ms) (movieID m) = 1"
      by (rule distinct_count_list_1[rotated])
  qed
  with run show "\<exists>ms. items_by_entity ia Person obj (Some (Lst cts)) (Some (Lst jts))
                = (Some (Lst (jts @ [''actress''])), Inr (Some ms)) \<and>
              (\<forall>ct\<in>set cts. \<forall>c\<in>set (candidate_works obj ''actress'' ct). \<forall>m.
                  update ia c = Inr m \<longrightarrow> kind_requested cts m \<longrightarrow>
                  count_list (map movieID ms) (movieID m) = 1)"
    by blast
qed

lemma job_loop_distinct_any:
  assumes "job_loop ia obj cts_v ms jl = Inr ms'" "distinct (map movieID ms)"
  shows "distinct (map movieID ms')"
proof (cases "\<exists>cts. cts_v = Some (Lst cts)")
  case True
  with assms job_loop_distinct show ?thesis by blast
next
  case False
  with assms(1) have "ms' = ms"
    by (cases jl) (auto split: option.splits pyval.splits)
  with assms(2) show ?thesis by simp
qed

lemma items_by_entity_Person_job_types:
  assumes "snd (items_by_entity ia Person obj cts_v jts_v) = Inr r"
  shows "\<exists>jts. jts_v = Some (Lst jts)"
  using assms by (auto split: option.splits pyval.splits)

text \<open>
  C5, as amended: the list returned for a person holds no work twice, and each work drawn
  for a requested pair whose kind is requested exactly once (by the backend's identifier);
  the list returned for a character is the concatenation of its four lists and the list
  returned for a company is the list of its one label, with nothing removed.
\<close>

theorem enumerator_duplicates:
  "(snd (items_by_entity ia Person obj cts_v jts_v) = Inr (Some ms) \<longrightarrow> distinct (map movieID ms))
   \<and> (snd (items_by_entity ia Person obj (Some (Lst cts)) (Some (Lst jts))) = Inr (Some ms') \<longrightarrow>
        (\<forall>jt\<in>set jts. \<forall>ct\<in>set cts. \<forall>c\<in>set (candidate_works obj jt ct). \<forall>m.
            update ia c = Inr m \<longrightarrow> kind_requested cts m \<longrightarrow>
            count_list (map movieID ms') (movieID m) = 1))
   \<and> snd (items_by_entity ia Character obj cts_v jts_v) =
       Inr (Some (get_or_empty obj ''feature'' @ get_or_empty obj ''tv''
                  @ get_or_empty obj ''video-game'' @ get_or_empty obj ''video''))
   \<and> snd (items_by_entity ia Company obj cts_v jts_v) = Inr (map_of obj ''production companies'')"
proof (intro conjI impI ballI allI)
  assume r: "snd (items_by_entity ia Person obj cts_v jts_v) = Inr (Some ms)"
  from items_by_entity_Person_job_types[OF r] obtain jts where j: "jts_v = Some (Lst jts)" ..
  from items_by_entity_Person_Inr[OF r[unfolded j]]
  show "distinct (map movieID ms)" by (rule job_loop_distinct_any) simp
next
  fix jt ct c m
  let ?jl = "if ''actor'' \<in> set jts then jts @ [''actress''] else jts"
  assume r: "snd (items_by_entity ia Person obj (Some (Lst cts)) (Some (Lst jts))) = Inr (Some ms')"
    and h: "jt \<in> set jts" "ct \<in> set cts" "c \<in> set (candidate_works obj jt ct)"
      "update ia c = Inr m" "kind_requested cts m"
  have jl: "job_loop ia obj (Some (Lst cts)) [] ?jl = Inr ms'"
    by (rule items_by_entity_Person_Inr[OF r])
  from h(3) obtain l where l: "person_lookup obj jt ct = Some l" "c \<in> set l"
    by (auto simp: in_candidate_works)
  from h(1) have "jt \<in> set ?jl" by simp
  from job_loop_complete[OF jl this h(2) l h(4,5)]
  have "movieID m \<in> set (map movieID ms')" by simp
  moreover have "distinct (map movieID ms')"
    using job_loop_distinct[OF jl] by simp
  ultimately show "count_list (map movieID ms') (movieID m) = 1"
    by (rule distinct_count_list_1[rotated])
qed simp_all

lemma person_example_run:
  "snd (items_by_entity (ia_of person_example) Person person_example
          (Some (Lst [''movie''])) (Some (Lst [''actor''])))
     = Inr (Some person_example_items)"
  by (simp add: ia_of_def person_example_def person_example_items_def work_def
        person_lookup_def movie_in_def kind_in_def)

theorem person_candidates_witness:
  "snd (items_by_entity (ia_of person_example) Person person_example
          (Some (Lst [''movie''])) (Some (Lst [''actor''])))
     = Inr (Some person_example_items)
   \<and> (\<exists>k. map_of (data (work ''0000004'' ''D'' ''movie'')) ''kind'' = Some (Str k)
          \<and> k \<in> set [''movie''])
   \<and> movieID (work ''0000002'' ''B'' ''movie'') \<in> movieID ` set person_example_items"
proof -
  note t = person_candidates[OF person_example_run]
  have i: "work ''0000004'' ''D'' ''movie'' \<in> set person_example_items"
    by (simp add: person_example_items_def)
  have c: "work ''0000002'' ''B'' ''movie''
             \<in> set (candidate_works person_example ''actor'' ''movie'')"
    by (simp add: candidate_works_def person_example_def get_or_empty_def)
  have u: "update (ia_of person_example) (work ''0000002'' ''B'' ''movie'')
             = Inr (work ''0000002'' ''B'' ''movie'')"
    by (simp add: ia_of_def)
  have k: "kind_requested [''movie''] (work ''0000002'' ''B'' ''movie'')"
    by (simp add: kind_requested_def work_def kind_in_def)
  from t i have a: "\<exists>k. map_of (data (work ''0000004'' ''D'' ''movie'')) ''kind'' = Some (Str k)
          \<and> k \<in> set [''movie'']" by blast
  from t c u k have b: "movieID (work ''0000002'' ''B'' ''movie'')
          \<in> movieID ` set person_example_items" by simp
  from person_example_run a b show ?thesis by blast
qed

theorem actress_expansion_witness:
  "items_by_entity (ia_of person_example) Person person_example
      (Some (Lst [''movie''])) (Some (Lst [''actor'']))
     = (Some (Lst [''actor'', ''actress'']), Inr (Some person_example_items))
   \<and> count_list (map movieID person_example_items) ''0000004'' = 1
   \<and> fst (items_by_entity (ia_of person_example) Person person_example
          (Some (Lst [''movie'', ''tv series''])) (Some (Lst [''actor''])))
       = Some (Lst [''actor'', ''actress''])
   \<and> on_task_input (Some (ia_of person_example)) all_valid dict_order config_actor
       = (config_actor_once, [], Inr (Some person_example_entries))"
proof -
  have a: "''actor'' \<in> set [''actor'']" by simp
  have w: "\<forall>jt\<in>set ([''actor''] @ [''actress'']). \<forall>ct\<in>set [''movie''].
             \<forall>c\<in>set (candidate_works person_example jt ct).
               fills_well (ia_of person_example) [''movie''] c"
    by (simp add: candidate_works_def person_example_def get_or_empty_def fills_well_def
          ia_of_def work_def kind_requested_def has_title_def kind_in_def)
  from actress_expansion[of "[''actor'']" "ia_of person_example" person_example
      "Some (Lst [''movie''])" "[''movie'']"] a w
  obtain ms where
    run: "items_by_entity (ia_of person_example) Person person_example
            (Some (Lst [''movie''])) (Some (Lst [''actor'']))
          = (Some (Lst ([''actor''] @ [''actress''])), Inr (Some ms))"
    and once: "\<forall>ct\<in>set [''movie'']. \<forall>c\<in>set (candidate_works person_example ''actress'' ct). \<forall>m.
                  update (ia_of person_example) c = Inr m \<longrightarrow> kind_requested [''movie''] m \<longrightarrow>
                  count_list (map movieID ms) (movieID m) = 1"
    by blast
  from run person_example_run have ms: "ms = person_example_items" by simp
  have c: "work ''0000004'' ''D'' ''movie''
             \<in> set (candidate_works person_example ''actress'' ''movie'')"
    by (simp add: candidate_works_def person_example_def get_or_empty_def)
  have u: "update (ia_of person_example) (work ''0000004'' ''D'' ''movie'')
             = Inr (work ''0000004'' ''D'' ''movie'')"
    by (simp add: ia_of_def)
  have k: "kind_requested [''movie''] (work ''0000004'' ''D'' ''movie'')"
    by (simp add: kind_requested_def work_def kind_in_def)
  have i: "movieID (work ''0000004'' ''D'' ''movie'') = ''0000004''" by (simp add: work_def)
  from once c u k i ms have n: "count_list (map movieID person_example_items) ''0000004'' = 1"
    by fastforce
  from actress_expansion[of "[''actor'']" "ia_of person_example" person_example
      "Some (Lst [''movie'', ''tv series''])"] a
  have two: "fst (items_by_entity (ia_of person_example) Person person_example
          (Some (Lst [''movie'', ''tv series''])) (Some (Lst [''actor''])))
       = Some (Lst [''actor'', ''actress''])" by simp
  have p: "on_task_input (Some (ia_of person_example)) all_valid dict_order config_actor
       = (config_actor_once, [], Inr (Some person_example_entries))"
    by (simp add: run_defs person_example_def config_actor_def config_actor_once_def
          person_example_entries_def)
  from run ms n two p show ?thesis by simp
qed


text \<open>
  C5 as stated fails for a character: a work that is in two of its lists is returned twice.
\<close>

theorem character_overlap_counterexample:
  "snd (items_by_entity (ia_of character_example) Character character_example
          (Some (Lst [''movie''])) (Some (Lst [''actor''])))
     = Inr (Some [work ''0000001'' ''A'' ''movie'', work ''0000001'' ''A'' ''movie''])
   \<and> \<not> distinct (map movieID [work ''0000001'' ''A'' ''movie'', work ''0000001'' ''A'' ''movie''])"
  by (simp add: character_example_def get_or_empty_def)

theorem enumerator_duplicates_witness:
  "snd (items_by_entity (ia_of person_example) Person person_example
          (Some (Lst [''movie''])) (Some (Lst [''actor''])))
     = Inr (Some person_example_items)
   \<and> distinct (map movieID person_example_items)
   \<and> count_list (map movieID person_example_items) ''0000002'' = 1"
proof -
  have c: "work ''0000002'' ''B'' ''movie'' \<in> set (candidate_works person_example ''actor'' ''movie'')"
    by (simp add: candidate_works_def person_example_def get_or_empty_def)
  have u: "update (ia_of person_example) (work ''0000002'' ''B'' ''movie'')
             = Inr (work ''0000002'' ''B'' ''movie'')"
    by (simp add: ia_of_def)
  have k: "kind_requested [''movie''] (work ''0000002'' ''B'' ''movie'')"
    by (simp add: kind_requested_def work_def kind_in_def)
  have i: "movieID (work ''0000002'' ''B'' ''movie'') = ''0000002''"
    by (simp add: work_def)
  from enumerator_duplicates[of "ia_of person_example" person_example "Some (Lst [''movie''])"
      "Some (Lst [''actor''])" person_example_items "[''movie'']" "[''actor'']"
      person_example_items] person_example_run c u k i
  show ?thesis by auto
qed

section \<open>The assembly of entries\<close>

lemma dedup_ids_subset:
  "set (dedup_by_canonical_id es) \<subseteq> set es"
  by (induction es) auto

lemma dedup_distinct:
  "distinct (map imdb_id (dedup_by_canonical_id es))"
proof (induction es)
  case Nil
  then show ?case by simp
next
  case (Cons e es)
  have "distinct (map imdb_id (filter (\<lambda>x. imdb_id x \<noteq> imdb_id e) (dedup_by_canonical_id es)))"
    using Cons.IH by (simp add: distinct_map_filter)
  then show ?case by auto
qed

text \<open>
  What the loop computes when it ends without an exception: the entries made from the
  items, the valid ones deduplicated, behind the entries it started with.
\<close>

lemma entry_loop_raw:
  "entry_loop ia isvalid entries reports items = (reports', Inr es) \<Longrightarrow>
   \<exists>raw. map (make_entry ia) items = map Inr raw \<and>
     es = entries @ filter (\<lambda>x. imdb_id x \<notin> imdb_id ` set entries)
                      (dedup_by_canonical_id (filter isvalid raw)) \<and>
     reports' = reports @ replicate (length (filter (\<lambda>x. \<not> isvalid x) raw)) InvalidEntryCreated"
proof (induction items arbitrary: entries reports)
  case Nil
  then show ?case by simp
next
  case (Cons item rest)
  from Cons.prems obtain entry where e: "make_entry ia item = Inr entry"
    by (cases "make_entry ia item") auto
  show ?case
  proof (cases "isvalid entry")
    case False
    with Cons.prems e have "entry_loop ia isvalid entries (reports @ [InvalidEntryCreated]) rest
       = (reports', Inr es)" by simp
    from Cons.IH[OF this] obtain raw where
      raw: "map (make_entry ia) rest = map Inr raw"
        "es = entries @ filter (\<lambda>x. imdb_id x \<notin> imdb_id ` set entries)
                      (dedup_by_canonical_id (filter isvalid raw))"
        "reports' = (reports @ [InvalidEntryCreated]) @
           replicate (length (filter (\<lambda>x. \<not> isvalid x) raw)) InvalidEntryCreated"
      by blast
    have "map (make_entry ia) (item # rest) = map Inr (entry # raw)" using e raw(1) by simp
    moreover have "es = entries @ filter (\<lambda>x. imdb_id x \<notin> imdb_id ` set entries)
                      (dedup_by_canonical_id (filter isvalid (entry # raw)))"
      using raw(2) False by simp
    moreover have "reports' = reports @
        replicate (length (filter (\<lambda>x. \<not> isvalid x) (entry # raw))) InvalidEntryCreated"
      using raw(3) False by (simp add: replicate_app_Cons_same)
    ultimately show ?thesis by blast
  next
    case True
    show ?thesis
    proof (cases "entry_in entry entries")
      case in_es: True
      with Cons.prems e True have "entry_loop ia isvalid entries reports rest = (reports', Inr es)"
        by simp
      from Cons.IH[OF this] obtain raw where
        raw: "map (make_entry ia) rest = map Inr raw"
          "es = entries @ filter (\<lambda>x. imdb_id x \<notin> imdb_id ` set entries)
                      (dedup_by_canonical_id (filter isvalid raw))"
          "reports' = reports @
             replicate (length (filter (\<lambda>x. \<not> isvalid x) raw)) InvalidEntryCreated"
        by blast
      have "map (make_entry ia) (item # rest) = map Inr (entry # raw)" using e raw(1) by simp
      moreover have "filter (\<lambda>x. imdb_id x \<notin> imdb_id ` set entries)
            (dedup_by_canonical_id (filter isvalid (entry # raw)))
          = filter (\<lambda>x. imdb_id x \<notin> imdb_id ` set entries)
              (dedup_by_canonical_id (filter isvalid raw))"
      proof -
        have i: "imdb_id entry \<in> imdb_id ` set entries" using in_es by (simp add: entry_in_def)
        have "filter (\<lambda>x. imdb_id x \<notin> imdb_id ` set entries)
                (filter (\<lambda>x. imdb_id x \<noteq> imdb_id entry) (dedup_by_canonical_id (filter isvalid raw)))
            = filter (\<lambda>x. imdb_id x \<notin> imdb_id ` set entries)
                (dedup_by_canonical_id (filter isvalid raw))"
          using i by (auto intro!: filter_cong)
        with True i show ?thesis by simp
      qed
      moreover have "reports' = reports @
          replicate (length (filter (\<lambda>x. \<not> isvalid x) (entry # raw))) InvalidEntryCreated"
        using raw(3) True by simp
      ultimately show ?thesis using raw(2) by metis
    next
      case out: False
      with Cons.prems e True have "entry_loop ia isvalid (entries @ [entry]) reports rest
         = (reports', Inr es)" by simp
      from Cons.IH[OF this] obtain raw where
        raw: "map (make_entry ia) rest = map Inr raw"
          "es = (entries @ [entry]) @ filter (\<lambda>x. imdb_id x \<notin> imdb_id ` set (entries @ [entry]))
                      (dedup_by_canonical_id (filter isvalid raw))"
          "reports' = reports @
             replicate (length (filter (\<lambda>x. \<not> isvalid x) raw)) InvalidEntryCreated"
        by blast
      have "map (make_entry ia) (item # rest) = map Inr (entry # raw)" using e raw(1) by simp
      moreover have "(entries @ [entry]) @ filter (\<lambda>x. imdb_id x \<notin> imdb_id ` set (entries @ [entry]))
                      (dedup_by_canonical_id (filter isvalid raw))
          = entries @ filter (\<lambda>x. imdb_id x \<notin> imdb_id ` set entries)
              (dedup_by_canonical_id (filter isvalid (entry # raw)))"
      proof -
        have i: "imdb_id entry \<notin> imdb_id ` set entries" using out by (simp add: entry_in_def)
        have "filter (\<lambda>x. imdb_id x \<notin> imdb_id ` set (entries @ [entry]))
                      (dedup_by_canonical_id (filter isvalid raw))
           = filter (\<lambda>x. imdb_id x \<notin> imdb_id ` set entries)
               (filter (\<lambda>x. imdb_id x \<noteq> imdb_id entry) (dedup_by_canonical_id (filter isvalid raw)))"
          by (auto intro!: filter_cong)
        with True i show ?thesis by simp
      qed
      moreover have "reports' = reports @
          replicate (length (filter (\<lambda>x. \<not> isvalid x) (entry # raw))) InvalidEntryCreated"
        using raw(3) True by simp
      ultimately show ?thesis using raw(2) by metis
    qed
  qed
qed

lemma make_entry_prefix:
  "make_entry ia item = Inr e \<Longrightarrow> \<exists>i. get_imdbID ia item = Inr i \<and> imdb_id e = ''tt'' @ i"
  by (auto simp: make_entry_def split: option.splits sum.splits)

lemma entry_loop_result:
  assumes "entry_loop ia isvalid [] reports items = (reports', Inr es)"
  shows "\<exists>raw. map (make_entry ia) items = map Inr raw \<and>
           es = dedup_by_canonical_id (filter isvalid raw)"
  using entry_loop_raw[OF assms] by auto

lemma entry_loop_all_made:
  "map (make_entry ia) items = map Inr raw \<Longrightarrow>
   \<exists>reports' es. entry_loop ia isvalid entries reports items = (reports', Inr es)"
proof (induction items arbitrary: raw entries reports)
  case Nil
  then show ?case by simp
next
  case (Cons item rest)
  then obtain e raw' where "raw = e # raw'" "make_entry ia item = Inr e"
    "map (make_entry ia) rest = map Inr raw'" by (cases raw) auto
  with Cons.IH[of raw'] show ?case by simp
qed

lemma entry_loop_of_raw:
  assumes "map (make_entry ia) items = map Inr raw"
  shows "entry_loop ia isvalid [] [] items =
           (replicate (length (filter (\<lambda>x. \<not> isvalid x) raw)) InvalidEntryCreated,
            Inr (dedup_by_canonical_id (filter isvalid raw)))"
proof -
  from entry_loop_all_made[OF assms] obtain reports' es where
    r: "entry_loop ia isvalid [] [] items = (reports', Inr es)" by blast
  from entry_loop_raw[OF r] obtain raw' where
    "map (make_entry ia) items = map Inr raw'"
    "es = dedup_by_canonical_id (filter isvalid raw')"
    "reports' = replicate (length (filter (\<lambda>x. \<not> isvalid x) raw')) InvalidEntryCreated"
    by auto
  moreover with assms have "raw' = raw" by (simp add: inj_map_eq_map[OF inj_Inr])
  ultimately show ?thesis using r by simp
qed

lemma dedup_distinct_id:
  "distinct (map imdb_id es) \<Longrightarrow> dedup_by_canonical_id es = es"
proof (induction es)
  case Nil
  then show ?case by simp
next
  case (Cons e es)
  then have "filter (\<lambda>x. imdb_id x \<noteq> imdb_id e) es = es"
    by (intro filter_True) (auto simp: image_iff)
  with Cons show ?case by simp
qed

lemma map_of_job_types_update:
  "k \<noteq> ''job_types'' \<Longrightarrow>
   map_of (case jv of Some v \<Rightarrow> AList.update ''job_types'' v cfg | None \<Rightarrow> cfg) k = map_of cfg k"
  by (cases jv) (simp_all add: AList.update_conv')

lemma on_task_input_resolved:
  assumes "map_of (prepare_config config) ''id'' = Some (Str s)"
    and "entity_type_and_object ia order s = Inr (Some (t, obj))"
    and "items_by_entity ia t obj (map_of (prepare_config config) ''content_types'')
           (map_of (prepare_config config) ''job_types'') = (jv, r)"
  shows "snd (on_task_input (Some ia) isvalid order config) =
     (case r of
        Inl e \<Rightarrow> ([], Inl e)
      | Inr None \<Rightarrow> ([CouldNotGetItemList], Inr None)
      | Inr (Some []) \<Rightarrow> ([CouldNotGetItemList], Inr None)
      | Inr (Some its) \<Rightarrow>
          (case entry_loop ia isvalid [] [] its of
             (reports, Inl e) \<Rightarrow> (reports, Inl e)
           | (reports, Inr entries) \<Rightarrow>
               if len_le (length entries) (map_of (prepare_config config) ''max_entries'')
               then (reports, Inr (Some entries))
               else (reports @ [ExceedsMaximum (length entries)], Inr None)))"
  using assms
  by (simp add: on_task_input_def Let_def map_of_job_types_update
        split: sum.splits option.splits list.splits prod.splits)

lemma on_task_input_not_resolved:
  assumes "(case map_of (prepare_config config) ''id'' of
              Some (Str s) \<Rightarrow> entity_type_and_object ia order s
            | _ \<Rightarrow> Inl TypeError) = r" "r = Inr None \<or> (\<exists>e. r = Inl e)"
  shows "snd (on_task_input (Some ia) isvalid order config) = ([CouldNotResolve], Inr None)"
  using assms by (auto simp: on_task_input_def Let_def)

lemma on_task_input_Some:
  assumes "on_task_input imdb isvalid order config = (c', reports, Inr (Some es))"
  shows "\<exists>ia s t obj jv its. imdb = Some ia \<and>
     map_of (prepare_config config) ''id'' = Some (Str s) \<and>
     entity_type_and_object ia order s = Inr (Some (t, obj)) \<and>
     items_by_entity ia t obj (map_of (prepare_config config) ''content_types'')
           (map_of (prepare_config config) ''job_types'') = (jv, Inr (Some its)) \<and>
     its \<noteq> [] \<and> entry_loop ia isvalid [] [] its = (reports, Inr es) \<and>
     len_le (length es) (map_of (prepare_config config) ''max_entries'')"
proof -
  from assms obtain ia where ia: "imdb = Some ia"
    by (cases imdb) (auto simp: on_task_input_def)
  let ?res = "case map_of (prepare_config config) ''id'' of
              Some (Str s) \<Rightarrow> entity_type_and_object ia order s
            | _ \<Rightarrow> Inl TypeError"
  have nr: "\<not> (?res = Inr None \<or> (\<exists>e. ?res = Inl e))"
  proof
    assume "?res = Inr None \<or> (\<exists>e. ?res = Inl e)"
    from on_task_input_not_resolved[OF refl this, of isvalid] assms ia show False by simp
  qed
  then obtain t obj where res: "?res = Inr (Some (t, obj))"
    by (cases ?res) auto
  then obtain s where s: "map_of (prepare_config config) ''id'' = Some (Str s)"
    "entity_type_and_object ia order s = Inr (Some (t, obj))"
    by (auto split: option.splits pyval.splits)
  obtain jv r where it: "items_by_entity ia t obj (map_of (prepare_config config) ''content_types'')
           (map_of (prepare_config config) ''job_types'') = (jv, r)" by (cases "items_by_entity ia t obj (map_of (prepare_config config) ''content_types'')
           (map_of (prepare_config config) ''job_types'')") auto
  from on_task_input_resolved[OF s it, of isvalid] assms ia
  obtain its where "r = Inr (Some its)" "its \<noteq> []"
    "entry_loop ia isvalid [] [] its = (reports, Inr es)"
    "len_le (length es) (map_of (prepare_config config) ''max_entries'')"
    by (auto split: sum.splits option.splits list.splits prod.splits if_splits)
  with ia s it show ?thesis by blast
qed

section \<open>The run as a whole\<close>

text \<open>
  C2: a run that returns entries returns at most \<open>max_entries\<close> of them; and when the
  loop over the items ends with more entries than \<open>max_entries\<close>, the run reports that
  the number exceeds the maximum and returns nothing, not a part of the list.  With 201
  entries and the default of 200 nothing is returned.
\<close>

theorem max_entries_cap:
  "(on_task_input imdb isvalid order config = (c', reports, Inr (Some es)) \<and>
    map_of (prepare_config config) ''max_entries'' = Some (Num m) \<longrightarrow> int (length es) \<le> m)
   \<and> (map_of (prepare_config config) ''id'' = Some (Str s) \<and>
      entity_type_and_object ia order s = Inr (Some (t, obj)) \<and>
      snd (items_by_entity ia t obj (map_of (prepare_config config) ''content_types'')
             (map_of (prepare_config config) ''job_types'')) = Inr (Some its) \<and>
      its \<noteq> [] \<and> entry_loop ia isvalid [] [] its = (reports', Inr es') \<and>
      map_of (prepare_config config) ''max_entries'' = Some (Num m) \<and> m < int (length es')
      \<longrightarrow> snd (on_task_input (Some ia) isvalid order config) =
            (reports' @ [ExceedsMaximum (length es')], Inr None))"
proof (intro conjI impI)
  assume a: "on_task_input imdb isvalid order config = (c', reports, Inr (Some es)) \<and>
    map_of (prepare_config config) ''max_entries'' = Some (Num m)"
  with on_task_input_Some[of imdb isvalid order config c' reports es]
  show "int (length es) \<le> m" by (auto simp: len_le_def)
next
  assume a: "map_of (prepare_config config) ''id'' = Some (Str s) \<and>
      entity_type_and_object ia order s = Inr (Some (t, obj)) \<and>
      snd (items_by_entity ia t obj (map_of (prepare_config config) ''content_types'')
             (map_of (prepare_config config) ''job_types'')) = Inr (Some its) \<and>
      its \<noteq> [] \<and> entry_loop ia isvalid [] [] its = (reports', Inr es') \<and>
      map_of (prepare_config config) ''max_entries'' = Some (Num m) \<and> m < int (length es')"
  then obtain jv where it: "items_by_entity ia t obj (map_of (prepare_config config) ''content_types'')
             (map_of (prepare_config config) ''job_types'') = (jv, Inr (Some its))"
    by (cases "items_by_entity ia t obj (map_of (prepare_config config) ''content_types'')
             (map_of (prepare_config config) ''job_types'')") auto
  from a have s: "map_of (prepare_config config) ''id'' = Some (Str s)"
    "entity_type_and_object ia order s = Inr (Some (t, obj))" by simp_all
  from on_task_input_resolved[OF s it, of isvalid] a
  show "snd (on_task_input (Some ia) isvalid order config) =
            (reports' @ [ExceedsMaximum (length es')], Inr None)"
    by (auto simp: len_le_def split: list.splits)
qed

lemma prepare_config_Bare:
  "prepare_config (Bare s) =
     [(''id'', Str s), (''content_types'', Lst [''movie'']), (''job_types'', Lst [''actor'']),
      (''max_entries'', Num 200)]"
  by (simp add: prepare_config_def setdefault_def wrap_string_def CONTENT_TYPES_def JOB_TYPES_def)

lemma person_example_pipeline:
  "on_task_input (Some (ia_of person_example)) all_valid dict_order (Bare ''nm0000001'')
     = (Bare ''nm0000001'', [], Inr (Some person_example_entries))"
  by (simp add: on_task_input_def prepare_config_Bare dict_order_def match_here_def is_digit_def
        ia_of_def person_example_def work_def person_lookup_def movie_in_def kind_in_def
        make_entry_def all_valid_def entry_in_def len_le_def config_object_def
        person_example_entries_def)

lemma numbered_entries_distinct: "distinct (map imdb_id (map numbered_entry [0..<n]))"
proof -
  have "inj_on (imdb_id \<circ> numbered_entry) (set [0..<n])"
    by (rule inj_onI) (auto simp: numbered_entry_def dest: arg_cong[where f = length])
  then show ?thesis by (simp add: distinct_map)
qed

lemma big_company_entries:
  "entry_loop (ia_of obj) all_valid [] [] (map numbered_work [0..<n])
     = ([], Inr (map numbered_entry [0..<n]))"
proof -
  have m: "map (make_entry (ia_of obj)) (map numbered_work [0..<n])
             = map Inr (map numbered_entry [0..<n])"
    by (simp add: make_entry_def ia_of_def numbered_work_def numbered_entry_def)
  have v: "filter all_valid (map numbered_entry [0..<n]) = map numbered_entry [0..<n]"
    by (simp add: all_valid_def)
  have nv: "filter (\<lambda>x. \<not> all_valid x) (map numbered_entry [0..<n]) = []"
    by (simp add: all_valid_def)
  from entry_loop_of_raw[OF m, of all_valid] v nv
    dedup_distinct_id[OF numbered_entries_distinct[of n]]
  show ?thesis by simp
qed

theorem max_entries_cap_witness:
  "on_task_input (Some (ia_of person_example)) all_valid dict_order (Bare ''nm0000001'')
     = (Bare ''nm0000001'', [], Inr (Some person_example_entries))
   \<and> int (length person_example_entries) \<le> 200
   \<and> entry_loop (ia_of big_company) all_valid [] [] (map numbered_work [0..<201])
       = ([], Inr (map numbered_entry [0..<201]))
   \<and> length (map numbered_entry [0..<201]) = 201
   \<and> snd (on_task_input (Some (ia_of big_company)) all_valid dict_order (Bare ''co0000001''))
       = ([ExceedsMaximum 201], Inr None)"
proof -
  have mx: "\<And>s. map_of (prepare_config (Bare s)) ''max_entries'' = Some (Num 200)"
    by (simp add: prepare_config_Bare)
  have i: "map_of (prepare_config (Bare ''co0000001'')) ''id'' = Some (Str ''co0000001'')"
    by (simp add: prepare_config_Bare)
  have r: "entity_type_and_object (ia_of big_company) dict_order ''co0000001''
             = Inr (Some (Company, big_company))"
    by (simp add: dict_order_def match_here_def is_digit_def ia_of_def)
  have it: "snd (items_by_entity (ia_of big_company) Company big_company
              (map_of (prepare_config (Bare ''co0000001'')) ''content_types'')
              (map_of (prepare_config (Bare ''co0000001'')) ''job_types''))
            = Inr (Some (map numbered_work [0..<201]))"
    by (simp add: big_company_def)
  have ne: "map numbered_work [0..<201] \<noteq> []"
    by simp
  have len: "length (map numbered_entry [0..<201]) = 201" by simp
  note e = big_company_entries[of big_company 201]
  have small: "int (length person_example_entries) \<le> 200"
    using max_entries_cap[of "Some (ia_of person_example)" all_valid dict_order
        "Bare ''nm0000001''" "Bare ''nm0000001''" "[]" person_example_entries 200]
      person_example_pipeline mx by blast
  have big: "snd (on_task_input (Some (ia_of big_company)) all_valid dict_order (Bare ''co0000001''))
       = ([ExceedsMaximum 201], Inr None)"
    using max_entries_cap[of _ all_valid dict_order "Bare ''co0000001''" _ _ _ 200 "''co0000001''"
        "ia_of big_company" Company big_company "map numbered_work [0..<201]" "[]"
        "map numbered_entry [0..<201]"]
      i r it ne e mx len by simp
  from person_example_pipeline small e len big show ?thesis by simp
qed

lemma entry_of_item:
  assumes "map (make_entry ia) items = map Inr raw" "e \<in> set raw"
  shows "\<exists>item\<in>set items. make_entry ia item = Inr e"
proof -
  from assms(2) have "Inr e \<in> set (map Inr raw)" by simp
  with assms(1) have "Inr e \<in> set (map (make_entry ia) items)" by simp
  then show ?thesis by auto
qed

text \<open>
  C6: the entries the loop over the items ends with are the entries made from the items,
  the valid ones deduplicated by canonical id with the first one seen kept and the order
  kept; no two of them share a canonical id, each of which is the backend's id of an item
  behind the letters \<open>tt\<close>; and no two entries a run returns share a canonical id.
\<close>

theorem result_ids_unique:
  "(entry_loop ia isvalid [] reports items = (reports', Inr es) \<longrightarrow>
      distinct (map imdb_id es) \<and>
      (\<exists>raw. map (make_entry ia) items = map Inr raw \<and>
             es = dedup_by_canonical_id (filter isvalid raw)) \<and>
      (\<forall>e\<in>set es. \<exists>item\<in>set items. \<exists>i.
          get_imdbID ia item = Inr i \<and> imdb_id e = ''tt'' @ i))
   \<and> (on_task_input imdb isvalid order config = (c', reports2, Inr (Some es2)) \<longrightarrow>
        distinct (map imdb_id es2))"
proof (intro conjI impI)
  assume r: "entry_loop ia isvalid [] reports items = (reports', Inr es)"
  from entry_loop_result[OF r] obtain raw where
    raw: "map (make_entry ia) items = map Inr raw"
         "es = dedup_by_canonical_id (filter isvalid raw)" by blast
  from raw(2) show "distinct (map imdb_id es)" by (simp add: dedup_distinct)
  from raw show "\<exists>raw. map (make_entry ia) items = map Inr raw \<and>
             es = dedup_by_canonical_id (filter isvalid raw)" by blast
  show "\<forall>e\<in>set es. \<exists>item\<in>set items. \<exists>i.
          get_imdbID ia item = Inr i \<and> imdb_id e = ''tt'' @ i"
  proof
    fix e assume "e \<in> set es"
    with raw(2) dedup_ids_subset[of "filter isvalid raw"] have "e \<in> set raw" by auto
    from entry_of_item[OF raw(1) this] obtain item where
      "item \<in> set items" "make_entry ia item = Inr e" by blast
    with make_entry_prefix[of ia item e]
    show "\<exists>item\<in>set items. \<exists>i. get_imdbID ia item = Inr i \<and> imdb_id e = ''tt'' @ i"
      by blast
  qed
next
  assume "on_task_input imdb isvalid order config = (c', reports2, Inr (Some es2))"
  from on_task_input_Some[OF this] obtain ia its where
    "entry_loop ia isvalid [] [] its = (reports2, Inr es2)" by blast
  from entry_loop_result[OF this] show "distinct (map imdb_id es2)"
    by (auto simp: dedup_distinct)
qed

theorem result_ids_unique_witness:
  "on_task_input (Some (ia_of character_example)) all_valid dict_order (Bare ''ch0000001'')
     = (Bare ''ch0000001'', [], Inr (Some entries_of_work_A))
   \<and> distinct (map imdb_id entries_of_work_A)"
proof -
  have r: "on_task_input (Some (ia_of character_example)) all_valid dict_order (Bare ''ch0000001'')
     = (Bare ''ch0000001'', [], Inr (Some entries_of_work_A))"
    by (simp add: run_defs character_example_def entries_of_work_A_def)
  from result_ids_unique[of "ia_of character_example" all_valid "[]" "[]" "[]" "[]"
      "Some (ia_of character_example)" dict_order "Bare ''ch0000001''" "Bare ''ch0000001''"
      "[]" entries_of_work_A] r
  show ?thesis by blast
qed

text \<open>
  C9, as amended: when the backend cannot be imported, when no pattern is found in the
  identifier or the backend raises during the lookup of the entity, when the entity has
  no works, and when the entries outnumber \<open>max_entries\<close>, the run reports the condition
  and returns nothing, without raising.
\<close>

theorem expected_failures_return_nothing:
  "on_task_input None isvalid order config = (config, [ImdbpyRequired], Inr None)
   \<and> (map_of (prepare_config config) ''id'' = Some (Str s) \<and>
        (entity_type_and_object ia order s = Inr None \<or>
         entity_type_and_object ia order s = Inl e) \<longrightarrow>
      snd (on_task_input (Some ia) isvalid order config) = ([CouldNotResolve], Inr None))
   \<and> (map_of (prepare_config config) ''id'' = Some (Str s) \<and>
      entity_type_and_object ia order s = Inr (Some (t, obj)) \<and>
        (snd (items_by_entity ia t obj (map_of (prepare_config config) ''content_types'')
               (map_of (prepare_config config) ''job_types'')) = Inr None \<or>
         snd (items_by_entity ia t obj (map_of (prepare_config config) ''content_types'')
               (map_of (prepare_config config) ''job_types'')) = Inr (Some [])) \<longrightarrow>
      snd (on_task_input (Some ia) isvalid order config) = ([CouldNotGetItemList], Inr None))
   \<and> (map_of (prepare_config config) ''id'' = Some (Str s) \<and>
      entity_type_and_object ia order s = Inr (Some (t, obj)) \<and>
      snd (items_by_entity ia t obj (map_of (prepare_config config) ''content_types'')
             (map_of (prepare_config config) ''job_types'')) = Inr (Some its) \<and>
      its \<noteq> [] \<and> entry_loop ia isvalid [] [] its = (reports, Inr es) \<and>
      \<not> len_le (length es) (map_of (prepare_config config) ''max_entries'') \<longrightarrow>
      snd (on_task_input (Some ia) isvalid order config) =
        (reports @ [ExceedsMaximum (length es)], Inr None))"
proof (intro conjI impI)
  show "on_task_input None isvalid order config = (config, [ImdbpyRequired], Inr None)"
    by (simp add: on_task_input_def)
next
  assume "map_of (prepare_config config) ''id'' = Some (Str s) \<and>
        (entity_type_and_object ia order s = Inr None \<or>
         entity_type_and_object ia order s = Inl e)"
  then show "snd (on_task_input (Some ia) isvalid order config) = ([CouldNotResolve], Inr None)"
    by (intro on_task_input_not_resolved[OF refl]) auto
next
  let ?it = "items_by_entity ia t obj (map_of (prepare_config config) ''content_types'')
               (map_of (prepare_config config) ''job_types'')"
  assume a: "map_of (prepare_config config) ''id'' = Some (Str s) \<and>
      entity_type_and_object ia order s = Inr (Some (t, obj)) \<and>
        (snd ?it = Inr None \<or> snd ?it = Inr (Some []))"
  obtain jv r where it: "?it = (jv, r)" by (cases ?it) auto
  from a have s: "map_of (prepare_config config) ''id'' = Some (Str s)"
    "entity_type_and_object ia order s = Inr (Some (t, obj))" by simp_all
  from on_task_input_resolved[OF s it, of isvalid] a it
  show "snd (on_task_input (Some ia) isvalid order config) = ([CouldNotGetItemList], Inr None)"
    by auto
next
  let ?it = "items_by_entity ia t obj (map_of (prepare_config config) ''content_types'')
               (map_of (prepare_config config) ''job_types'')"
  assume a: "map_of (prepare_config config) ''id'' = Some (Str s) \<and>
      entity_type_and_object ia order s = Inr (Some (t, obj)) \<and>
      snd ?it = Inr (Some its) \<and>
      its \<noteq> [] \<and> entry_loop ia isvalid [] [] its = (reports, Inr es) \<and>
      \<not> len_le (length es) (map_of (prepare_config config) ''max_entries'')"
  obtain jv r where it: "?it = (jv, r)" by (cases ?it) auto
  from a have s: "map_of (prepare_config config) ''id'' = Some (Str s)"
    "entity_type_and_object ia order s = Inr (Some (t, obj))" by simp_all
  from on_task_input_resolved[OF s it, of isvalid] a it
  show "snd (on_task_input (Some ia) isvalid order config) =
        (reports @ [ExceedsMaximum (length es)], Inr None)"
    by (auto split: list.splits)
qed

theorem expected_failures_return_nothing_witness:
  "entity_type_and_object ia_lookup_fails dict_order ''nm0000001''
     = Inl (BackendError ''get_person'')
   \<and> snd (on_task_input (Some ia_lookup_fails) all_valid dict_order (Bare ''nm0000001''))
       = ([CouldNotResolve], Inr None)
   \<and> entity_type_and_object (ia_of []) dict_order ''co0000001'' = Inr (Some (Company, []))
   \<and> snd (on_task_input (Some (ia_of [])) all_valid dict_order (Bare ''co0000001''))
       = ([CouldNotGetItemList], Inr None)"
proof -
  have i: "\<And>s. map_of (prepare_config (Bare s)) ''id'' = Some (Str s)"
    by (simp add: prepare_config_id)
  have r1: "entity_type_and_object ia_lookup_fails dict_order ''nm0000001''
     = Inl (BackendError ''get_person'')"
    by (simp add: dict_order_def match_here_def is_digit_def ia_lookup_fails_def ia_of_def)
  have r2: "entity_type_and_object (ia_of []) dict_order ''co0000001''
     = Inr (Some (Company, []))"
    by (simp add: dict_order_def match_here_def is_digit_def ia_of_def)
  have n: "snd (items_by_entity (ia_of []) Company []
                 (map_of (prepare_config (Bare ''co0000001'')) ''content_types'')
                 (map_of (prepare_config (Bare ''co0000001'')) ''job_types'')) = Inr None"
    by simp
  from expected_failures_return_nothing[of all_valid dict_order "Bare ''nm0000001''"
      "''nm0000001''" ia_lookup_fails "BackendError ''get_person''"] i r1
  have a: "snd (on_task_input (Some ia_lookup_fails) all_valid dict_order (Bare ''nm0000001''))
       = ([CouldNotResolve], Inr None)" by simp
  from expected_failures_return_nothing[of all_valid dict_order "Bare ''co0000001''"
      "''co0000001''" "ia_of []" _ Company "[]"] i r2 n
  have b: "snd (on_task_input (Some (ia_of [])) all_valid dict_order (Bare ''co0000001''))
       = ([CouldNotGetItemList], Inr None)" by simp
  from r1 a r2 b show ?thesis by simp
qed

text \<open>
  C9 as stated fails: an error the backend raises while a work is filled leaves the run as
  an exception.
\<close>

theorem hydration_error_counterexample:
  "on_task_input (Some (ia_update_fails person_example)) all_valid dict_order (Bare ''nm0000001'')
     = (Bare ''nm0000001'', [], Inl (BackendError ''update''))"
  by (simp add: run_defs ia_update_fails_def person_example_def)


lemma movie_loop_kindless:
  "movie_loop ia cts ms l = Inr ms' \<Longrightarrow> c \<in> set l \<Longrightarrow> update ia c = Inr m \<Longrightarrow>
   map_of (data m) ''kind'' = None \<Longrightarrow> movieID m \<in> movieID ` set ms'"
proof (induction l arbitrary: ms)
  case Nil
  then show ?case by simp
next
  case (Cons c' rest)
  from movie_loop_step_update[OF Cons.prems(1)] obtain m' where m': "update ia c' = Inr m'" ..
  show ?case
  proof (cases "c = c'")
    case True
    with m' Cons.prems have mm: "m' = m" by simp
    have nk: "\<not> kind_requested cts m" using Cons.prems(4) by (simp add: kind_requested_def)
    have "movie_in m ms"
    proof (rule ccontr)
      assume "\<not> movie_in m ms"
      with Cons.prems(1,4) m' mm show False by simp
    qed
    moreover from movie_loop_step_skip[OF m' _ Cons.prems(1)] nk mm
    have "movie_loop ia cts ms rest = Inr ms'" by blast
    from movie_loop_keeps[OF this] have "set ms \<subseteq> set ms'" .
    ultimately show ?thesis by (auto simp: movie_in_def)
  next
    case False
    with Cons.prems have cin: "c \<in> set rest" by simp
    have "\<exists>ms1. movie_loop ia cts ms1 rest = Inr ms'"
    proof (cases "\<not> movie_in m' ms \<and> kind_requested cts m'")
      case True
      with movie_loop_step_new[OF m' _ _ Cons.prems(1)] show ?thesis by blast
    next
      case False
      with movie_loop_step_skip[OF m' _ Cons.prems(1)] show ?thesis by blast
    qed
    then obtain ms1 where "movie_loop ia cts ms1 rest = Inr ms'" ..
    from Cons.IH[OF this cin Cons.prems(3,4)] show ?thesis .
  qed
qed

lemma entry_loop_untitled:
  "item \<in> set items \<Longrightarrow> map_of (data item) ''title'' = None \<Longrightarrow>
   \<exists>e. snd (entry_loop ia isvalid es reports items) = Inl e"
proof (induction items arbitrary: es reports)
  case Nil
  then show ?case by simp
next
  case (Cons x rest)
  show ?case
  proof (cases "make_entry ia x")
    case (Inl e)
    then show ?thesis by simp
  next
    case (Inr entry)
    with Cons.prems have "item \<noteq> x" by (auto simp: make_entry_def)
    with Cons.prems have "item \<in> set rest" by simp
    from Cons.IH[OF this Cons.prems(2)] Inr show ?thesis by simp
  qed
qed

text \<open>
  C10, as amended: a filled work that is not in the list yet and has no \<open>kind\<close> raises
  \<open>KeyError\<close>, so an enumeration that ends normally has met such a work only after one
  with its identifier was collected; a work that would be retained and has no \<open>title\<close>
  raises \<open>TypeError\<close>, while one whose kind is not requested is skipped whether it has a
  title or not; an item without \<open>title\<close> makes the loop over the items raise, with
  \<open>KeyError\<close> when it is the first to fail; and the run does not catch what the
  enumeration or the loop over the items raises.
\<close>

theorem unchecked_fields:
  "(update ia c = Inr m \<and> \<not> movie_in m ms \<and> map_of (data m) ''kind'' = None \<longrightarrow>
      movie_loop ia cts ms (c # rest) = Inl (KeyError ''kind''))
   \<and> (movie_loop ia cts ms l = Inr ms' \<and> c \<in> set l \<and> update ia c = Inr m \<and>
      map_of (data m) ''kind'' = None \<longrightarrow> movieID m \<in> movieID ` set ms')
   \<and> (update ia c = Inr m \<and> \<not> movie_in m ms \<and> kind_requested cts m \<and>
      map_of (data m) ''title'' = None \<longrightarrow>
      movie_loop ia cts ms (c # rest) = Inl TypeError)
   \<and> (update ia c = Inr m \<and> map_of (data m) ''kind'' = Some k \<and> \<not> kind_in k cts \<and>
      map_of (data m) ''title'' = None \<longrightarrow>
      movie_loop ia cts ms (c # rest) = movie_loop ia cts ms rest)
   \<and> (item \<in> set items \<and> map_of (data item) ''title'' = None \<longrightarrow>
      (\<exists>e. snd (entry_loop ia isvalid es reports items) = Inl e))
   \<and> (map_of (data item) ''title'' = None \<longrightarrow>
      entry_loop ia isvalid es reports (item # items) = (reports, Inl (KeyError ''title'')))
   \<and> (map_of (prepare_config config) ''id'' = Some (Str s) \<and>
      entity_type_and_object ia order s = Inr (Some (t, obj)) \<and>
      snd (items_by_entity ia t obj (map_of (prepare_config config) ''content_types'')
             (map_of (prepare_config config) ''job_types'')) = Inl e \<longrightarrow>
      snd (on_task_input (Some ia) isvalid order config) = ([], Inl e))
   \<and> (map_of (prepare_config config) ''id'' = Some (Str s) \<and>
      entity_type_and_object ia order s = Inr (Some (t, obj)) \<and>
      snd (items_by_entity ia t obj (map_of (prepare_config config) ''content_types'')
             (map_of (prepare_config config) ''job_types'')) = Inr (Some its) \<and>
      its \<noteq> [] \<and> entry_loop ia isvalid [] [] its = (reports', Inl e) \<longrightarrow>
      snd (on_task_input (Some ia) isvalid order config) = (reports', Inl e))"
proof (intro conjI impI)
  assume "update ia c = Inr m \<and> \<not> movie_in m ms \<and> map_of (data m) ''kind'' = None"
  then show "movie_loop ia cts ms (c # rest) = Inl (KeyError ''kind'')" by simp
next
  assume "movie_loop ia cts ms l = Inr ms' \<and> c \<in> set l \<and> update ia c = Inr m \<and>
      map_of (data m) ''kind'' = None"
  then show "movieID m \<in> movieID ` set ms'" using movie_loop_kindless by blast
next
  assume "update ia c = Inr m \<and> \<not> movie_in m ms \<and> kind_requested cts m \<and>
      map_of (data m) ''title'' = None"
  then show "movie_loop ia cts ms (c # rest) = Inl TypeError"
    by (auto simp: kind_requested_def split: option.splits)
next
  assume "update ia c = Inr m \<and> map_of (data m) ''kind'' = Some k \<and> \<not> kind_in k cts \<and>
      map_of (data m) ''title'' = None"
  then show "movie_loop ia cts ms (c # rest) = movie_loop ia cts ms rest" by simp
next
  assume "item \<in> set items \<and> map_of (data item) ''title'' = None"
  then show "\<exists>e. snd (entry_loop ia isvalid es reports items) = Inl e"
    using entry_loop_untitled by blast
next
  assume "map_of (data item) ''title'' = None"
  then show "entry_loop ia isvalid es reports (item # items) = (reports, Inl (KeyError ''title''))"
    by (simp add: make_entry_def)
next
  let ?it = "items_by_entity ia t obj (map_of (prepare_config config) ''content_types'')
               (map_of (prepare_config config) ''job_types'')"
  assume a: "map_of (prepare_config config) ''id'' = Some (Str s) \<and>
      entity_type_and_object ia order s = Inr (Some (t, obj)) \<and> snd ?it = Inl e"
  obtain jv r where it: "?it = (jv, r)" by (cases ?it) auto
  from a have s: "map_of (prepare_config config) ''id'' = Some (Str s)"
    "entity_type_and_object ia order s = Inr (Some (t, obj))" by simp_all
  from on_task_input_resolved[OF s it, of isvalid] a it
  show "snd (on_task_input (Some ia) isvalid order config) = ([], Inl e)" by auto
next
  let ?it = "items_by_entity ia t obj (map_of (prepare_config config) ''content_types'')
               (map_of (prepare_config config) ''job_types'')"
  assume a: "map_of (prepare_config config) ''id'' = Some (Str s) \<and>
      entity_type_and_object ia order s = Inr (Some (t, obj)) \<and>
      snd ?it = Inr (Some its) \<and>
      its \<noteq> [] \<and> entry_loop ia isvalid [] [] its = (reports', Inl e)"
  obtain jv r where it: "?it = (jv, r)" by (cases ?it) auto
  from a have s: "map_of (prepare_config config) ''id'' = Some (Str s)"
    "entity_type_and_object ia order s = Inr (Some (t, obj))" by simp_all
  from on_task_input_resolved[OF s it, of isvalid] a it
  show "snd (on_task_input (Some ia) isvalid order config) = (reports', Inl e)"
    by (auto split: list.splits)
qed

theorem unchecked_fields_witness:
  "snd (on_task_input (Some (ia_of person_kindless)) all_valid dict_order (Bare ''nm0000001''))
     = ([], Inl (KeyError ''kind''))
   \<and> snd (on_task_input (Some (ia_of company_untitled)) all_valid dict_order (Bare ''co0000001''))
     = ([], Inl (KeyError ''title''))"
proof -
  have i: "\<And>s. map_of (prepare_config (Bare s)) ''id'' = Some (Str s)"
    by (simp add: prepare_config_id)
  have r1: "entity_type_and_object (ia_of person_kindless) dict_order ''nm0000001''
     = Inr (Some (Person, person_kindless))"
    by (simp add: dict_order_def match_here_def is_digit_def ia_of_def)
  have r2: "entity_type_and_object (ia_of company_untitled) dict_order ''co0000001''
     = Inr (Some (Company, company_untitled))"
    by (simp add: dict_order_def match_here_def is_digit_def ia_of_def)
  have u: "update (ia_of person_kindless) \<lparr>movieID = ''0000007'', data = [(''title'', Str ''K'')]\<rparr>
     = Inr \<lparr>movieID = ''0000007'', data = [(''title'', Str ''K'')]\<rparr>"
    by (simp add: ia_of_def)
  from unchecked_fields[where ia = "ia_of person_kindless"
      and c = "\<lparr>movieID = ''0000007'', data = [(''title'', Str ''K'')]\<rparr>"
      and m = "\<lparr>movieID = ''0000007'', data = [(''title'', Str ''K'')]\<rparr>"
      and ms = "[]" and cts = "[''movie'']" and rest = "[]"] u
  have ml: "movie_loop (ia_of person_kindless) [''movie''] []
              [\<lparr>movieID = ''0000007'', data = [(''title'', Str ''K'')]\<rparr>]
            = Inl (KeyError ''kind'')"
    by (simp add: movie_in_def)
  have it1: "snd (items_by_entity (ia_of person_kindless) Person person_kindless
                 (map_of (prepare_config (Bare ''nm0000001'')) ''content_types'')
                 (map_of (prepare_config (Bare ''nm0000001'')) ''job_types''))
             = Inl (KeyError ''kind'')"
    using ml by (simp add: prepare_config_Bare person_kindless_def person_lookup_def)
  from unchecked_fields[where ia = "ia_of person_kindless" and config = "Bare ''nm0000001''"
      and s = "''nm0000001''" and order = dict_order and t = Person and obj = person_kindless
      and e = "KeyError ''kind''" and isvalid = all_valid] i r1 it1
  have a: "snd (on_task_input (Some (ia_of person_kindless)) all_valid dict_order (Bare ''nm0000001''))
     = ([], Inl (KeyError ''kind''))" by simp
  have it2: "snd (items_by_entity (ia_of company_untitled) Company company_untitled
                 (map_of (prepare_config (Bare ''co0000001'')) ''content_types'')
                 (map_of (prepare_config (Bare ''co0000001'')) ''job_types''))
             = Inr (Some [\<lparr>movieID = ''0000006'', data = [(''kind'', Str ''movie'')]\<rparr>])"
    by (simp add: company_untitled_def)
  from unchecked_fields[where ia = "ia_of company_untitled"
      and item = "\<lparr>movieID = ''0000006'', data = [(''kind'', Str ''movie'')]\<rparr>"
      and items = "[]" and isvalid = all_valid and es = "[]" and reports = "[]"]
  have el: "entry_loop (ia_of company_untitled) all_valid [] []
              [\<lparr>movieID = ''0000006'', data = [(''kind'', Str ''movie'')]\<rparr>]
            = ([], Inl (KeyError ''title''))" by simp
  from unchecked_fields[where ia = "ia_of company_untitled" and config = "Bare ''co0000001''"
      and s = "''co0000001''" and order = dict_order and t = Company and obj = company_untitled
      and e = "KeyError ''title''" and isvalid = all_valid
      and its = "[\<lparr>movieID = ''0000006'', data = [(''kind'', Str ''movie'')]\<rparr>]"
      and reports' = "[]"] i r2 it2 el
  have b: "snd (on_task_input (Some (ia_of company_untitled)) all_valid dict_order (Bare ''co0000001''))
     = ([], Inl (KeyError ''title''))" by simp
  from a b show ?thesis by simp
qed


text \<open>
  C10 as stated fails: a filled work without \<open>title\<close> whose kind is not requested is
  skipped, and the run returns the entries of the other works.
\<close>

theorem untitled_work_skipped_counterexample:
  "on_task_input (Some (ia_of person_untitled)) all_valid dict_order (Bare ''nm0000001'')
     = (Bare ''nm0000001'', [], Inr (Some entries_of_work_A))"
  by (simp add: run_defs person_untitled_def entries_of_work_A_def)











text \<open>
  C3: a run changes the configuration it was passed.  A first run of a person's
  configuration with the job type \<open>actor\<close> leaves \<open>actress\<close> appended to the list, which
  the schema no longer accepts, and a second run with the same object appends it again.
\<close>

theorem job_types_grow:
  "schema config_actor
   \<and> fst (on_task_input (Some (ia_of person_example)) all_valid dict_order config_actor)
       = config_actor_once
   \<and> fst (on_task_input (Some (ia_of person_example)) all_valid dict_order config_actor_once)
       = config_actor_twice
   \<and> \<not> schema config_actor_once"
  by (simp add: run_defs person_example_def config_actor_def config_actor_once_def
        config_actor_twice_def schema_def property_ok_def enum_or_array_def)

end
